theory Spec2Isabelle
  imports Complex_Main
begin

section \<open>Numbers and arrays\<close>

text \<open>
  The callback of \<^verbatim>\<open>App.py\<close> computes with Python floats and numpy float64 arrays.
  The arithmetic is modelled twice. In the first model numbers are reals and every operation
  is exact: it gives the structure of the figure (which shapes, in which order, which of
  them depend on which parameter). The one place where this model leaves the reals is the
  array division by \<^verbatim>\<open>W\<close>: numpy does not raise on a zero divisor, it yields
  \<^verbatim>\<open>nan\<close> or \<^verbatim>\<open>inf\<close>; such an entry is \<open>None\<close>. In the second model, further
  down, every operation rounds as IEEE 754 binary64 does; the claims about the values that
  the code computes are settled there.
\<close>

type_synonym ndarray1 = "real list"
type_synonym ndarray2 = "real list list"
type_synonym farray2 = "real option list list"

definition true_divide :: "real \<Rightarrow> real \<Rightarrow> real option" where
  \<comment> \<open>an entry of \<^verbatim>\<open>array / scalar\<close>\<close>
  "true_divide a b = (if b = 0 then None else Some (a / b))"

definition linspace :: "real \<Rightarrow> real \<Rightarrow> nat \<Rightarrow> ndarray1" where
  \<comment> \<open>\<^verbatim>\<open>np.linspace(start, stop, num)\<close> with \<^verbatim>\<open>endpoint=True\<close>:
      \<^verbatim>\<open>arange(0, num) * step + start\<close>, the last sample overwritten by \<^verbatim>\<open>stop\<close>\<close>
  "linspace start stop num =
     (let dv = num - 1;
          delta = stop - start;
          y = map real [0..<num];
          y = (if 0 < dv
               then (let step = delta / real dv
                     in if step = 0 then map (\<lambda>v. (v / real dv) * delta) y
                        else map (\<lambda>v. v * step) y)
               else map (\<lambda>v. v * delta) y);
          y = map (\<lambda>v. v + start) y
      in if 1 < num then y[num - 1 := stop] else y)"

definition meshgrid :: "'a list \<Rightarrow> 'b list \<Rightarrow> 'a list list \<times> 'b list list" where
  \<comment> \<open>\<^verbatim>\<open>np.meshgrid(x, y)\<close>, default \<^verbatim>\<open>indexing='xy'\<close>: both of shape (len y, len x)\<close>
  "meshgrid x y = (replicate (length y) x, map (\<lambda>v. replicate (length x) v) y)"

section \<open>Float64 arithmetic\<close>

text \<open>
  A finite float64 is the real number it denotes (the two zeros are one number: they are
  equal in every comparison the callback could make); \<open>None\<close> stands for the values that
  are not finite, \<^verbatim>\<open>inf\<close>, \<^verbatim>\<open>-inf\<close> and \<^verbatim>\<open>nan\<close>. An operation computes
  the exact result and rounds it to the nearest float64, a tie to the even significand
  (\<open>rnd\<close>): the significand has 53 bits, so a result of binary exponent \<open>e\<close> is rounded to a
  multiple of \<open>2 powi (e - 52)\<close>, and to a multiple of \<open>2 powi (- 1074)\<close> in the subnormal
  range. A rounded result of magnitude \<open>2 ^ 1024\<close> or more overflows to an infinity.
\<close>

text \<open>The binary exponent \<open>e\<close> of \<open>x \<noteq> 0\<close>, with \<open>2 powi e \<le> \<bar>x\<bar> < 2 powi (e + 1)\<close>.\<close>

function up2 :: "real \<Rightarrow> int" where
  "up2 x = (if 2 \<le> x then up2 (x / 2) + 1 else 0)"
  by pat_completeness auto
termination
proof (relation "measure (\<lambda>x. nat \<lceil>x\<rceil>)")
  show "wf (measure (\<lambda>x. nat \<lceil>x\<rceil>))" by simp
next
  fix x :: real
  assume x: "2 \<le> x"
  have "x / 2 \<le> x - 1" using x by simp
  then have "\<lceil>x / 2\<rceil> \<le> \<lceil>x - 1\<rceil>" by (rule ceiling_mono)
  then have "\<lceil>x / 2\<rceil> < \<lceil>x\<rceil>" by simp
  moreover have "0 < \<lceil>x\<rceil>" using x by (simp add: ceiling_less_iff[symmetric] less_ceiling_iff)
  ultimately show "(x / 2, x) \<in> measure (\<lambda>x. nat \<lceil>x\<rceil>)" by simp
qed

function down2 :: "real \<Rightarrow> int" where
  "down2 x = (if 0 < x \<and> x < 1 then down2 (2 * x) - 1 else 0)"
  by pat_completeness auto
termination
proof (relation "measure (\<lambda>x. nat \<lceil>1 / x\<rceil>)")
  show "wf (measure (\<lambda>x. nat \<lceil>1 / x\<rceil>))" by simp
next
  fix x :: real
  assume x: "0 < x \<and> x < 1"
  define y where "y = 1 / x"
  have y: "1 < y" using x by (simp add: y_def)
  have c2: "2 \<le> \<lceil>y\<rceil>" using y by (simp add: le_ceiling_iff)
  define c where "c = real_of_int \<lceil>y\<rceil>"
  have "y \<le> c" unfolding c_def by (rule le_of_int_ceiling)
  moreover have "2 \<le> c" unfolding c_def using c2 by linarith
  ultimately have "y / 2 \<le> c - 1" by linarith
  then have "y / 2 \<le> of_int (\<lceil>y\<rceil> - 1)" by (simp add: c_def)
  then have h: "\<lceil>y / 2\<rceil> \<le> \<lceil>y\<rceil> - 1" by (rule ceiling_le)
  have e: "1 / (2 * x) = y / 2" by (simp add: y_def)
  have "\<lceil>1 / (2 * x)\<rceil> \<le> \<lceil>1 / x\<rceil> - 1"
    unfolding e using h by (simp only: y_def)
  then have lt: "\<lceil>1 / (2 * x)\<rceil> < \<lceil>1 / x\<rceil>" by linarith
  have pos: "0 < \<lceil>1 / x\<rceil>" using c2 unfolding y_def by linarith
  have "nat \<lceil>1 / (2 * x)\<rceil> < nat \<lceil>1 / x\<rceil>"
    using pos lt by (simp only: zless_nat_conj)
  then show "(2 * x, x) \<in> measure (\<lambda>x. nat \<lceil>1 / x\<rceil>)"
    by (simp only: in_measure)
qed

declare up2.simps [simp del] down2.simps [simp del]

definition expo :: "real \<Rightarrow> int" where
  "expo x = (if 1 \<le> \<bar>x\<bar> then up2 \<bar>x\<bar> else down2 \<bar>x\<bar>)"

definition rne :: "real \<Rightarrow> int" where
  \<comment> \<open>round to the nearest integer, a tie to the even one\<close>
  "rne a = (let f = \<lfloor>a\<rfloor>; r = a - of_int f
            in if r < 1 / 2 then f else if 1 / 2 < r then f + 1
               else if even f then f else f + 1)"

definition quantum :: "real \<Rightarrow> real" where
  \<comment> \<open>the spacing of the float64 values around \<open>x\<close>\<close>
  "quantum x = 2 powi (max (expo x - 52) (- 1074))"

definition rnd :: "real \<Rightarrow> real" where
  "rnd x = of_int (rne (x / quantum x)) * quantum x"

type_synonym f64 = "real option"

definition round64 :: "real \<Rightarrow> f64" where
  "round64 x = (if \<bar>rnd x\<bar> < 2 ^ 1024 then Some (rnd x) else None)"

definition is_f64 :: "real \<Rightarrow> bool" where
  \<comment> \<open>\<open>x\<close> is a finite float64 value\<close>
  "is_f64 x = (round64 x = Some x)"

text \<open>
  An operand that is not finite makes the result of \<^verbatim>\<open>+\<close>, \<^verbatim>\<open>-\<close> and \<^verbatim>\<open>*\<close> not
  finite. Every divisor of the callback is a parameter or a constant, hence finite; a zero
  divisor gives \<^verbatim>\<open>inf\<close> or \<^verbatim>\<open>nan\<close>, with a warning and no exception.
\<close>

definition fadd :: "f64 \<Rightarrow> f64 \<Rightarrow> f64" where
  "fadd a b = (case (a, b) of (Some u, Some v) \<Rightarrow> round64 (u + v) | _ \<Rightarrow> None)"

definition fsub :: "f64 \<Rightarrow> f64 \<Rightarrow> f64" where
  "fsub a b = (case (a, b) of (Some u, Some v) \<Rightarrow> round64 (u - v) | _ \<Rightarrow> None)"

definition fmul :: "f64 \<Rightarrow> f64 \<Rightarrow> f64" where
  "fmul a b = (case (a, b) of (Some u, Some v) \<Rightarrow> round64 (u * v) | _ \<Rightarrow> None)"

definition fdiv :: "f64 \<Rightarrow> real \<Rightarrow> f64" where
  "fdiv a w = (case a of Some u \<Rightarrow> if w = 0 then None else round64 (u / w) | None \<Rightarrow> None)"

definition point_one :: real where
  \<comment> \<open>the float64 that the literal \<^verbatim>\<open>0.1\<close> denotes\<close>
  "point_one = 3602879701896397 / 36028797018963968"

definition linspace_f64 :: "real \<Rightarrow> real \<Rightarrow> nat \<Rightarrow> f64 list" where
  \<comment> \<open>\<^verbatim>\<open>np.linspace(start, stop, num)\<close> as above, every operation rounding\<close>
  "linspace_f64 start stop num =
     (let dv = num - 1;
          delta = fsub (Some stop) (Some start);
          y = map (\<lambda>j. Some (real j)) [0..<num];
          y = (if 0 < dv
               then (let step = fdiv delta (real dv)
                     in if step = Some 0 then map (\<lambda>v. fmul (fdiv v (real dv)) delta) y
                        else map (\<lambda>v. fmul v step) y)
               else map (\<lambda>v. fmul v delta) y);
          y = map (\<lambda>v. fadd v (Some start)) y
      in if 1 < num then y[num - 1 := Some stop] else y)"

section \<open>Hydraulic head\<close>

definition hydraulic_head :: "ndarray2 \<Rightarrow> ndarray2 \<Rightarrow> real \<Rightarrow> real \<Rightarrow> real \<Rightarrow> farray2" where
  \<comment> \<open>\<^verbatim>\<open>head_left - (head_left - head_right) * X / W\<close>, broadcast over \<^verbatim>\<open>X\<close>;
      \<^verbatim>\<open>Y\<close> is a parameter that the body never reads\<close>
  "hydraulic_head X Y W head_left head_right =
     map (map (\<lambda>x. map_option (\<lambda>q. head_left - q)
                      (true_divide ((head_left - head_right) * x) W))) X"

definition hydraulic_head_f64 ::
  "f64 list list \<Rightarrow> f64 list list \<Rightarrow> real \<Rightarrow> real \<Rightarrow> real \<Rightarrow> f64 list list"
where
  \<comment> \<open>the same expression in float64: a subtraction, a product, a quotient and a
      subtraction, each rounded\<close>
  "hydraulic_head_f64 X Y W head_left head_right =
     map (map (\<lambda>x. fsub (Some head_left)
                      (fdiv (fmul (fsub (Some head_left) (Some head_right)) x) W))) X"

section \<open>The figure\<close>

text \<open>
  The figure's records are generic in the type \<open>'n\<close> of its numbers (\<open>real\<close> in the exact
  model, \<open>f64\<close> in the float64 model) and in the type \<open>'z\<close> of the entries of the head field.
\<close>

record line_dict =
  color :: string
  width :: real

record 'n shape =
  shape_type :: string
  x0 :: 'n
  x1 :: 'n
  y0 :: 'n
  y1 :: 'n
  line :: line_dict
  fillcolor :: "string option"
  layer :: "string option"

record ('n, 'z) contour =
  z :: "'z list list"
  x :: "'n list"
  y :: "'n list"
  contours_coloring :: string
  showscale :: bool
  contour_line :: line_dict

text \<open>
  The text of an annotation is an f-string: literal pieces around the number it formats.
\<close>

datatype 'n fpart = Lit string | Num 'n

record 'n annotation =
  ann_x :: 'n
  ann_y :: 'n
  ann_text :: "'n fpart list"
  showarrow :: bool
  font_color :: string

record 'n layout =
  title :: "string option"
  xaxis_title :: "string option"
  yaxis_title :: "string option"
  xaxis_range :: "'n list option"
  yaxis_range :: "'n list option"
  layout_height :: "int option"
  layout_width :: "int option"
  shapes :: "'n shape list"
  annotations :: "'n annotation list"

record ('n, 'z) figure =
  data :: "('n, 'z) contour list"
  fig_layout :: "'n layout"

text \<open>
  A figure is a mutable object: \<^verbatim>\<open>go.Figure()\<close> allocates one and the methods
  \<^verbatim>\<open>add_shape\<close>, \<^verbatim>\<open>add_trace\<close>, \<^verbatim>\<open>update_layout\<close> and \<^verbatim>\<open>add_annotation\<close> change it in
  place. The store of figure objects is a list, an object's address its index. The layout
  template that \<^verbatim>\<open>go.Figure()\<close> copies from the process-wide default of the plotting
  library is state of that library, not of \<^verbatim>\<open>App.py\<close>, and is not part of the figure here.
\<close>

type_synonym ('n, 'z) figures = "('n, 'z) figure list"
type_synonym store = "(real, real option) figures"
type_synonym store64 = "(f64, f64) figures"
type_synonym ref = nat

definition empty_layout :: "'n layout" where
  "empty_layout = \<lparr>title = None, xaxis_title = None, yaxis_title = None,
     xaxis_range = None, yaxis_range = None, layout_height = None, layout_width = None,
     shapes = [], annotations = []\<rparr>"

definition Figure :: "('n, 'z) figures \<Rightarrow> ref \<times> ('n, 'z) figures" where
  "Figure s = (length s, s @ [\<lparr>data = [], fig_layout = empty_layout\<rparr>])"

definition modify ::
  "ref \<Rightarrow> (('n, 'z) figure \<Rightarrow> ('n, 'z) figure) \<Rightarrow> ('n, 'z) figures \<Rightarrow> ('n, 'z) figures"
where
  "modify r f s = (if r < length s then s[r := f (s ! r)] else s)"

definition add_shape :: "ref \<Rightarrow> 'n shape \<Rightarrow> ('n, 'z) figures \<Rightarrow> ('n, 'z) figures" where
  "add_shape fig sh =
     modify fig (\<lambda>f. f\<lparr>fig_layout := (fig_layout f)\<lparr>shapes := shapes (fig_layout f) @ [sh]\<rparr>\<rparr>)"

definition add_trace ::
  "ref \<Rightarrow> ('n, 'z) contour \<Rightarrow> ('n, 'z) figures \<Rightarrow> ('n, 'z) figures"
where
  "add_trace fig tr = modify fig (\<lambda>f. f\<lparr>data := data f @ [tr]\<rparr>)"

definition add_annotation ::
  "ref \<Rightarrow> 'n annotation \<Rightarrow> ('n, 'z) figures \<Rightarrow> ('n, 'z) figures"
where
  "add_annotation fig an =
     modify fig (\<lambda>f. f\<lparr>fig_layout :=
       (fig_layout f)\<lparr>annotations := annotations (fig_layout f) @ [an]\<rparr>\<rparr>)"

definition update_layout ::
  "ref \<Rightarrow> string \<Rightarrow> string \<Rightarrow> string \<Rightarrow> 'n list \<Rightarrow> 'n list \<Rightarrow> int \<Rightarrow> int \<Rightarrow>
     ('n, 'z) figures \<Rightarrow> ('n, 'z) figures"
where
  \<comment> \<open>the keyword arguments of the one call in the source; the other layout entries stay\<close>
  "update_layout fig t xt yt xr yr h w =
     modify fig (\<lambda>f. f\<lparr>fig_layout := (fig_layout f)\<lparr>title := Some t,
       xaxis_title := Some xt, yaxis_title := Some yt,
       xaxis_range := Some xr, yaxis_range := Some yr,
       layout_height := Some h, layout_width := Some w\<rparr>\<rparr>)"

section \<open>The callback\<close>

text \<open>In exact arithmetic:\<close>

definition update_figure ::
  "store \<Rightarrow> real \<Rightarrow> real \<Rightarrow> real \<Rightarrow> real \<Rightarrow> real \<Rightarrow> real \<Rightarrow> real \<Rightarrow> ref \<times> store"
where
  "update_figure s0 H W K head_left head_right excavation_depth_right excavation_depth_left =
     (let x = linspace 0 W 100;
          y = linspace 0 H 100;
          (X, Y) = meshgrid x y;
          head = hydraulic_head X Y W head_left head_right;
          (fig, s) = Figure s0;
          s = add_shape fig \<lparr>shape_type = ''rect'', x0 = W / 2, x1 = W, y0 = H,
                y1 = H - excavation_depth_right,
                line = \<lparr>color = ''Black'', width = 2\<rparr>,
                fillcolor = Some ''white'', layer = Some ''below''\<rparr> s;
          s = add_shape fig \<lparr>shape_type = ''rect'', x0 = 0, x1 = W / 2, y0 = H,
                y1 = H - excavation_depth_left,
                line = \<lparr>color = ''Black'', width = 2\<rparr>,
                fillcolor = Some ''white'', layer = Some ''below''\<rparr> s;
          s = add_shape fig \<lparr>shape_type = ''rect'', x0 = (W / 2) - 1 / 2, x1 = W / 2, y0 = H,
                y1 = H - (excavation_depth_right + ((1 / 10) * (H - excavation_depth_right))),
                line = \<lparr>color = ''gray'', width = 1\<rparr>,
                fillcolor = Some ''gray'', layer = None\<rparr> s;
          s = add_trace fig \<lparr>z = head, x = x, y = y, contours_coloring = ''lines'',
                showscale = False, contour_line = \<lparr>color = ''blue'', width = 1\<rparr>\<rparr> s;
          flow_lines_x = linspace 0 W 5;
          s = fold (\<lambda>x_coord. add_shape fig \<lparr>shape_type = ''line'', x0 = x_coord,
                x1 = x_coord, y0 = 0, y1 = H,
                line = \<lparr>color = ''orange'', width = 3 / 2\<rparr>,
                fillcolor = None, layer = None\<rparr>) flow_lines_x s;
          s = update_layout fig ''Seepage Flow Around a Deep Excavation with Flow Net''
                ''Width (m)'' ''Depth (m)'' [0, W] [0, H] 600 900 s;
          s = add_shape fig \<lparr>shape_type = ''line'', x0 = 0, x1 = W / 2, y0 = head_left,
                y1 = head_left, line = \<lparr>color = ''blue'', width = 2\<rparr>,
                fillcolor = None, layer = Some ''above''\<rparr> s;
          s = add_annotation fig \<lparr>ann_x = W / 4, ann_y = head_left,
                ann_text = [Lit ''Water Level (Left): '', Num head_left, Lit '' m''],
                showarrow = False, font_color = ''blue''\<rparr> s;
          s = add_shape fig \<lparr>shape_type = ''line'', x0 = W / 2, x1 = W, y0 = head_right,
                y1 = head_right, line = \<lparr>color = ''blue'', width = 2\<rparr>,
                fillcolor = None, layer = Some ''above''\<rparr> s;
          s = add_annotation fig \<lparr>ann_x = 3 * W / 4, ann_y = head_right,
                ann_text = [Lit ''Water Level (Right): '', Num head_right, Lit '' m''],
                showarrow = False, font_color = ''blue''\<rparr> s
      in (fig, s))"

text \<open>
  In float64. The parameters are finite numbers; where a claim needs them to be float64
  values it says so (\<open>is_f64\<close>). The constants \<^verbatim>\<open>2\<close>, \<^verbatim>\<open>4\<close>, \<^verbatim>\<open>3\<close>, \<^verbatim>\<open>0.5\<close> and
  \<^verbatim>\<open>1.5\<close> are float64 values, \<^verbatim>\<open>0.1\<close> is not and denotes \<open>point_one\<close>.
\<close>

definition update_figure_f64 ::
  "store64 \<Rightarrow> real \<Rightarrow> real \<Rightarrow> real \<Rightarrow> real \<Rightarrow> real \<Rightarrow> real \<Rightarrow> real \<Rightarrow> ref \<times> store64"
where
  "update_figure_f64 s0 H W K head_left head_right
       excavation_depth_right excavation_depth_left =
     (let x = linspace_f64 0 W 100;
          y = linspace_f64 0 H 100;
          (X, Y) = meshgrid x y;
          head = hydraulic_head_f64 X Y W head_left head_right;
          (fig, s) = Figure s0;
          s = add_shape fig \<lparr>shape_type = ''rect'', x0 = fdiv (Some W) 2, x1 = Some W,
                y0 = Some H, y1 = fsub (Some H) (Some excavation_depth_right),
                line = \<lparr>color = ''Black'', width = 2\<rparr>,
                fillcolor = Some ''white'', layer = Some ''below''\<rparr> s;
          s = add_shape fig \<lparr>shape_type = ''rect'', x0 = Some 0, x1 = fdiv (Some W) 2,
                y0 = Some H, y1 = fsub (Some H) (Some excavation_depth_left),
                line = \<lparr>color = ''Black'', width = 2\<rparr>,
                fillcolor = Some ''white'', layer = Some ''below''\<rparr> s;
          s = add_shape fig \<lparr>shape_type = ''rect'',
                x0 = fsub (fdiv (Some W) 2) (Some (1 / 2)), x1 = fdiv (Some W) 2,
                y0 = Some H,
                y1 = fsub (Some H) (fadd (Some excavation_depth_right)
                       (fmul (Some point_one) (fsub (Some H) (Some excavation_depth_right)))),
                line = \<lparr>color = ''gray'', width = 1\<rparr>,
                fillcolor = Some ''gray'', layer = None\<rparr> s;
          s = add_trace fig \<lparr>z = head, x = x, y = y, contours_coloring = ''lines'',
                showscale = False, contour_line = \<lparr>color = ''blue'', width = 1\<rparr>\<rparr> s;
          flow_lines_x = linspace_f64 0 W 5;
          s = fold (\<lambda>x_coord. add_shape fig \<lparr>shape_type = ''line'', x0 = x_coord,
                x1 = x_coord, y0 = Some 0, y1 = Some H,
                line = \<lparr>color = ''orange'', width = 3 / 2\<rparr>,
                fillcolor = None, layer = None\<rparr>) flow_lines_x s;
          s = update_layout fig ''Seepage Flow Around a Deep Excavation with Flow Net''
                ''Width (m)'' ''Depth (m)'' [Some 0, Some W] [Some 0, Some H] 600 900 s;
          s = add_shape fig \<lparr>shape_type = ''line'', x0 = Some 0, x1 = fdiv (Some W) 2,
                y0 = Some head_left, y1 = Some head_left,
                line = \<lparr>color = ''blue'', width = 2\<rparr>,
                fillcolor = None, layer = Some ''above''\<rparr> s;
          s = add_annotation fig \<lparr>ann_x = fdiv (Some W) 4, ann_y = Some head_left,
                ann_text = [Lit ''Water Level (Left): '', Num (Some head_left), Lit '' m''],
                showarrow = False, font_color = ''blue''\<rparr> s;
          s = add_shape fig \<lparr>shape_type = ''line'', x0 = fdiv (Some W) 2, x1 = Some W,
                y0 = Some head_right, y1 = Some head_right,
                line = \<lparr>color = ''blue'', width = 2\<rparr>,
                fillcolor = None, layer = Some ''above''\<rparr> s;
          s = add_annotation fig \<lparr>ann_x = fdiv (fmul (Some 3) (Some W)) 4,
                ann_y = Some head_right,
                ann_text = [Lit ''Water Level (Right): '', Num (Some head_right), Lit '' m''],
                showarrow = False, font_color = ''blue''\<rparr> s
      in (fig, s))"

definition returned_figure :: "ref \<times> ('n, 'z) figures \<Rightarrow> ('n, 'z) figure" where
  \<comment> \<open>the object behind the reference that the callback returns\<close>
  "returned_figure r = snd r ! fst r"

section \<open>Basic facts\<close>

subsection \<open>Sample grids\<close>

lemma upt5: "[0..<5] = [0, 1, 2, 3, 4::nat]"
  by (simp add: upt_conv_Cons numeral_eq_Suc)

lemma linspace5: "linspace 0 W 5 = [0, W / 4, W / 2, 3 * W / 4, W]"
  by (simp add: linspace_def Let_def upt5)

lemma linspace_length: "length (linspace a b n) = n"
  by (simp add: linspace_def Let_def)

lemma linspace_nth:
  assumes "j < n" "1 < n"
  shows "linspace 0 W n ! j = real j * W / real (n - 1)"
proof (cases "j = n - 1")
  case True
  with assms show ?thesis by (simp add: linspace_def Let_def)
next
  case False
  with assms show ?thesis by (simp add: linspace_def Let_def)
qed

subsection \<open>Methods on the freshly allocated figure\<close>

lemma modify_last: "modify (length s) g (s @ [f]) = s @ [g f]"
  by (simp add: modify_def)

lemma add_shape_last:
  "add_shape (length s) sh (s @ [f]) =
     s @ [f\<lparr>fig_layout := (fig_layout f)\<lparr>shapes := shapes (fig_layout f) @ [sh]\<rparr>\<rparr>]"
  by (simp add: add_shape_def modify_last)

lemma add_trace_last:
  "add_trace (length s) tr (s @ [f]) = s @ [f\<lparr>data := data f @ [tr]\<rparr>]"
  by (simp add: add_trace_def modify_last)

lemma add_annotation_last:
  "add_annotation (length s) an (s @ [f]) =
     s @ [f\<lparr>fig_layout := (fig_layout f)\<lparr>annotations := annotations (fig_layout f) @ [an]\<rparr>\<rparr>]"
  by (simp add: add_annotation_def modify_last)

lemma update_layout_last:
  "update_layout (length s) t xt yt xr yr h w (s @ [f]) =
     s @ [f\<lparr>fig_layout := (fig_layout f)\<lparr>title := Some t,
       xaxis_title := Some xt, yaxis_title := Some yt,
       xaxis_range := Some xr, yaxis_range := Some yr,
       layout_height := Some h, layout_width := Some w\<rparr>\<rparr>]"
  by (simp add: update_layout_def modify_last)

lemma fold_add_shape_last:
  "fold (\<lambda>c. add_shape (length s) (g c)) cs (s @ [f]) =
     s @ [f\<lparr>fig_layout := (fig_layout f)\<lparr>shapes := shapes (fig_layout f) @ map g cs\<rparr>\<rparr>]"
proof (induction cs arbitrary: f)
  case Nil
  show ?case by simp
next
  case (Cons c cs)
  show ?case by (simp add: add_shape_last Cons.IH)
qed

subsection \<open>What one call of the callback builds\<close>

text \<open>
  A call allocates one new figure behind all existing objects, leaves those untouched and
  fills the new one as follows.
\<close>

lemma update_figure_eq:
  "update_figure s0 H W K head_left head_right excavation_depth_right excavation_depth_left =
    (length s0, s0 @ [\<lparr>data = [\<lparr>z = hydraulic_head (replicate 100 (linspace 0 W 100))
                   (map (\<lambda>v. replicate 100 v) (linspace 0 H 100)) W head_left head_right,
                 x = linspace 0 W 100, y = linspace 0 H 100, contours_coloring = ''lines'',
                 showscale = False, contour_line = \<lparr>color = ''blue'', width = 1\<rparr>\<rparr>],
       fig_layout = \<lparr>title = Some ''Seepage Flow Around a Deep Excavation with Flow Net'',
         xaxis_title = Some ''Width (m)'', yaxis_title = Some ''Depth (m)'',
         xaxis_range = Some [0, W], yaxis_range = Some [0, H],
         layout_height = Some 600, layout_width = Some 900,
         shapes = [\<lparr>shape_type = ''rect'', x0 = W / 2, x1 = W, y0 = H,
                y1 = H - excavation_depth_right,
                line = \<lparr>color = ''Black'', width = 2\<rparr>,
                fillcolor = Some ''white'', layer = Some ''below''\<rparr>,
             \<lparr>shape_type = ''rect'', x0 = 0, x1 = W / 2, y0 = H,
                y1 = H - excavation_depth_left,
                line = \<lparr>color = ''Black'', width = 2\<rparr>,
                fillcolor = Some ''white'', layer = Some ''below''\<rparr>,
             \<lparr>shape_type = ''rect'', x0 = (W / 2) - 1 / 2, x1 = W / 2, y0 = H,
                y1 = H - (excavation_depth_right + ((1 / 10) * (H - excavation_depth_right))),
                line = \<lparr>color = ''gray'', width = 1\<rparr>,
                fillcolor = Some ''gray'', layer = None\<rparr>]
           @ map (\<lambda>x_coord. \<lparr>shape_type = ''line'', x0 = x_coord, x1 = x_coord,
                y0 = 0, y1 = H, line = \<lparr>color = ''orange'', width = 3 / 2\<rparr>,
                fillcolor = None, layer = None\<rparr>) (linspace 0 W 5)
           @ [\<lparr>shape_type = ''line'', x0 = 0, x1 = W / 2, y0 = head_left,
                y1 = head_left, line = \<lparr>color = ''blue'', width = 2\<rparr>,
                fillcolor = None, layer = Some ''above''\<rparr>,
              \<lparr>shape_type = ''line'', x0 = W / 2, x1 = W, y0 = head_right,
                y1 = head_right, line = \<lparr>color = ''blue'', width = 2\<rparr>,
                fillcolor = None, layer = Some ''above''\<rparr>],
         annotations = [\<lparr>ann_x = W / 4, ann_y = head_left,
                ann_text = [Lit ''Water Level (Left): '', Num head_left, Lit '' m''],
                showarrow = False, font_color = ''blue''\<rparr>,
              \<lparr>ann_x = 3 * W / 4, ann_y = head_right,
                ann_text = [Lit ''Water Level (Right): '', Num head_right, Lit '' m''],
                showarrow = False, font_color = ''blue''\<rparr>]\<rparr>\<rparr>])"
  unfolding update_figure_def Let_def meshgrid_def Figure_def split_conv linspace_length
  by (simp add: add_shape_last add_trace_last add_annotation_last update_layout_last
      fold_add_shape_last empty_layout_def)

lemma update_figure_data:
  "data (returned_figure (update_figure s0 H W K head_left head_right
      excavation_depth_right excavation_depth_left)) =
    [\<lparr>z = hydraulic_head (replicate 100 (linspace 0 W 100))
           (map (\<lambda>v. replicate 100 v) (linspace 0 H 100)) W head_left head_right,
      x = linspace 0 W 100, y = linspace 0 H 100, contours_coloring = ''lines'',
      showscale = False, contour_line = \<lparr>color = ''blue'', width = 1\<rparr>\<rparr>]"
  by (simp add: update_figure_eq returned_figure_def)

lemma update_figure_shapes:
  "shapes (fig_layout (returned_figure (update_figure s0 H W K head_left head_right
      excavation_depth_right excavation_depth_left))) =
    [\<lparr>shape_type = ''rect'', x0 = W / 2, x1 = W, y0 = H,
        y1 = H - excavation_depth_right,
        line = \<lparr>color = ''Black'', width = 2\<rparr>,
        fillcolor = Some ''white'', layer = Some ''below''\<rparr>,
     \<lparr>shape_type = ''rect'', x0 = 0, x1 = W / 2, y0 = H,
        y1 = H - excavation_depth_left,
        line = \<lparr>color = ''Black'', width = 2\<rparr>,
        fillcolor = Some ''white'', layer = Some ''below''\<rparr>,
     \<lparr>shape_type = ''rect'', x0 = (W / 2) - 1 / 2, x1 = W / 2, y0 = H,
        y1 = H - (excavation_depth_right + ((1 / 10) * (H - excavation_depth_right))),
        line = \<lparr>color = ''gray'', width = 1\<rparr>,
        fillcolor = Some ''gray'', layer = None\<rparr>]
    @ map (\<lambda>x_coord. \<lparr>shape_type = ''line'', x0 = x_coord, x1 = x_coord,
        y0 = 0, y1 = H, line = \<lparr>color = ''orange'', width = 3 / 2\<rparr>,
        fillcolor = None, layer = None\<rparr>) [0, W / 4, W / 2, 3 * W / 4, W]
    @ [\<lparr>shape_type = ''line'', x0 = 0, x1 = W / 2, y0 = head_left,
         y1 = head_left, line = \<lparr>color = ''blue'', width = 2\<rparr>,
         fillcolor = None, layer = Some ''above''\<rparr>,
       \<lparr>shape_type = ''line'', x0 = W / 2, x1 = W, y0 = head_right,
         y1 = head_right, line = \<lparr>color = ''blue'', width = 2\<rparr>,
         fillcolor = None, layer = Some ''above''\<rparr>]"
  by (simp add: update_figure_eq returned_figure_def linspace5)

lemma update_figure_annotations:
  "annotations (fig_layout (returned_figure (update_figure s0 H W K head_left head_right
      excavation_depth_right excavation_depth_left))) =
    [\<lparr>ann_x = W / 4, ann_y = head_left,
        ann_text = [Lit ''Water Level (Left): '', Num head_left, Lit '' m''],
        showarrow = False, font_color = ''blue''\<rparr>,
     \<lparr>ann_x = 3 * W / 4, ann_y = head_right,
        ann_text = [Lit ''Water Level (Right): '', Num head_right, Lit '' m''],
        showarrow = False, font_color = ''blue''\<rparr>]"
  by (simp add: update_figure_eq returned_figure_def)

subsection \<open>Entries of the head field\<close>

lemma hydraulic_head_length: "length (hydraulic_head X Y W head_left head_right) = length X"
  by (simp add: hydraulic_head_def)

lemma hydraulic_head_row_length:
  "i < length X \<Longrightarrow> length (hydraulic_head X Y W head_left head_right ! i) = length (X ! i)"
  by (simp add: hydraulic_head_def)

lemma hydraulic_head_nth:
  "i < length X \<Longrightarrow> j < length (X ! i) \<Longrightarrow> W \<noteq> 0 \<Longrightarrow>
     hydraulic_head X Y W head_left head_right ! i ! j =
       Some (head_left - (head_left - head_right) * (X ! i ! j) / W)"
  by (simp add: hydraulic_head_def true_divide_def)

section \<open>Facts of float64 rounding\<close>

lemma up2_bounds: "1 \<le> r \<Longrightarrow> 2 powi (up2 r) \<le> r \<and> r < 2 powi (up2 r + 1)"
proof (induction r rule: up2.induct)
  case (1 r)
  show ?case
  proof (cases "2 \<le> r")
    case True
    then have "1 \<le> r / 2" by simp
    with 1 True have IH: "2 powi (up2 (r / 2)) \<le> r / 2 \<and> r / 2 < 2 powi (up2 (r / 2) + 1)"
      by blast
    have u: "up2 r = up2 (r / 2) + 1" using True by (simp add: up2.simps[of r])
    show ?thesis unfolding u using IH by (simp add: power_int_add)
  next
    case False
    then have u: "up2 r = 0" by (simp add: up2.simps[of r])
    show ?thesis unfolding u using False 1(2) by simp
  qed
qed

lemma down2_bounds: "0 < r \<Longrightarrow> r < 1 \<Longrightarrow> 2 powi (down2 r) \<le> r \<and> r < 2 powi (down2 r + 1)"
proof (induction r rule: down2.induct)
  case (1 r)
  have u: "down2 r = down2 (2 * r) - 1" using 1(2,3) by (simp add: down2.simps[of r])
  show ?case
  proof (cases "2 * r < 1")
    case True
    with 1 have IH: "2 powi (down2 (2 * r)) \<le> 2 * r \<and> 2 * r < 2 powi (down2 (2 * r) + 1)"
      by simp
    show ?thesis unfolding u using IH by (simp add: power_int_add power_int_diff)
  next
    case False
    then have "down2 (2 * r) = 0" by (simp add: down2.simps[of "2 * r"])
    then show ?thesis unfolding u using False 1(3) by (simp add: power_int_minus)
  qed
qed

lemma expo_bounds: "r \<noteq> 0 \<Longrightarrow> 2 powi (expo r) \<le> \<bar>r\<bar> \<and> \<bar>r\<bar> < 2 powi (expo r + 1)"
  using up2_bounds[of "\<bar>r\<bar>"] down2_bounds[of "\<bar>r\<bar>"] by (auto simp: expo_def)

lemma powi2_mono: "a \<le> b \<Longrightarrow> (2::real) powi a \<le> 2 powi b"
  by (rule power_int_increasing) simp_all

lemma powi2_less_imp: "(2::real) powi a < 2 powi b \<Longrightarrow> a < b"
  using powi2_mono[of b a] by (cases "a < b") auto

lemma expo_eqI:
  assumes "2 powi e \<le> \<bar>r\<bar>" "\<bar>r\<bar> < 2 powi (e + 1)"
  shows "expo r = e"
proof -
  have "0 < (2::real) powi e" by simp
  with assms(1) have "0 < \<bar>r\<bar>" by linarith
  then have nz: "r \<noteq> 0" by simp
  from expo_bounds[OF nz] have b: "2 powi (expo r) \<le> \<bar>r\<bar>" "\<bar>r\<bar> < 2 powi (expo r + 1)" by simp_all
  have "2 powi e < (2::real) powi (expo r + 1)" using assms(1) b(2) by linarith
  then have "e < expo r + 1" by (rule powi2_less_imp)
  moreover have "2 powi (expo r) < (2::real) powi (e + 1)" using assms(2) b(1) by linarith
  then have "expo r < e + 1" by (rule powi2_less_imp)
  ultimately show ?thesis by simp
qed

lemma quantum_eqI:
  "2 powi e \<le> \<bar>r\<bar> \<Longrightarrow> \<bar>r\<bar> < 2 powi (e + 1) \<Longrightarrow> quantum r = 2 powi (max (e - 52) (- 1074))"
  by (simp add: quantum_def expo_eqI)

lemma rnd_eqI:
  "2 powi e \<le> \<bar>r\<bar> \<Longrightarrow> \<bar>r\<bar> < 2 powi (e + 1) \<Longrightarrow>
     rnd r = of_int (rne (r / 2 powi (max (e - 52) (- 1074)))) * 2 powi (max (e - 52) (- 1074))"
  by (simp add: rnd_def quantum_eqI)

lemma rne_of_int [simp]: "rne (of_int m) = m"
  by (simp add: rne_def)

lemma rne_cases: "rne a = \<lfloor>a\<rfloor> \<or> rne a = \<lfloor>a\<rfloor> + 1"
  by (simp add: rne_def Let_def)

lemma rne_mono:
  assumes "a \<le> b"
  shows "rne a \<le> rne b"
proof (cases "\<lfloor>a\<rfloor> = \<lfloor>b\<rfloor>")
  case True
  have "a - of_int \<lfloor>b\<rfloor> \<le> b - of_int \<lfloor>b\<rfloor>" using assms by simp
  then show ?thesis unfolding rne_def Let_def True by auto
next
  case False
  with floor_mono[OF assms] have "\<lfloor>a\<rfloor> + 1 \<le> \<lfloor>b\<rfloor>" by simp
  moreover have "rne a \<le> \<lfloor>a\<rfloor> + 1" using rne_cases[of a] by auto
  moreover have "\<lfloor>b\<rfloor> \<le> rne b" using rne_cases[of b] by auto
  ultimately show ?thesis by simp
qed

lemma rne_minus: "rne (- a) = - rne a"
proof (cases "a = of_int \<lfloor>a\<rfloor>")
  case True
  then obtain m where "a = of_int m" ..
  then show ?thesis by (simp flip: of_int_minus)
next
  case False
  then have lt: "of_int \<lfloor>a\<rfloor> < a" using of_int_floor_le[of a] by linarith
  have up: "a < of_int \<lfloor>a\<rfloor> + 1" by linarith
  have fl: "\<lfloor>- a\<rfloor> = - \<lfloor>a\<rfloor> - 1"
  proof (rule floor_unique)
    have e: "real_of_int (- \<lfloor>a\<rfloor> - 1) = - real_of_int \<lfloor>a\<rfloor> - 1" by simp
    show "of_int (- \<lfloor>a\<rfloor> - 1) \<le> - a" unfolding e using up by linarith
    show "- a < of_int (- \<lfloor>a\<rfloor> - 1) + 1" unfolding e using lt by linarith
  qed
  have ev: "even (- \<lfloor>a\<rfloor> - 1) \<longleftrightarrow> odd \<lfloor>a\<rfloor>" by simp
  show ?thesis unfolding rne_def Let_def fl ev by (auto simp: field_simps)
qed

lemma quantum_pos: "0 < quantum r"
  by (simp add: quantum_def)

lemma quantum_minus: "quantum (- r) = quantum r"
  by (simp add: quantum_def expo_def)

lemma rnd_minus: "rnd (- r) = - rnd r"
  by (simp add: rnd_def quantum_minus rne_minus)

lemma rnd_0 [simp]: "rnd 0 = 0"
  by (simp add: rnd_def rne_def)

lemma rnd_nonneg: "0 \<le> r \<Longrightarrow> 0 \<le> rnd r"
proof -
  assume "0 \<le> r"
  then have "0 \<le> r / quantum r" using quantum_pos[of r] by simp
  from rne_mono[OF this] have "0 \<le> rne (r / quantum r)" by (simp add: rne_def)
  then show ?thesis using quantum_pos[of r] by (simp add: rnd_def)
qed

lemma expo_mono_pos:
  assumes "0 < r" "r \<le> s"
  shows "expo r \<le> expo s"
proof -
  from assms have nz: "r \<noteq> 0" "s \<noteq> 0" by auto
  from expo_bounds[OF nz(1)] expo_bounds[OF nz(2)] assms
  have "2 powi (expo r) < (2::real) powi (expo s + 1)" by auto
  then have "expo r < expo s + 1" by (rule powi2_less_imp)
  then show ?thesis by simp
qed

lemma powi2_int: "0 \<le> k \<Longrightarrow> (2::real) powi k = of_int (2 ^ nat k)"
  by (simp add: power_int_def)

lemma rnd_le_grid:
  assumes "r \<le> of_int n * quantum r"
  shows "rnd r \<le> of_int n * quantum r"
proof -
  have "r / quantum r \<le> of_int n" using assms quantum_pos[of r] by (simp add: field_simps)
  from rne_mono[OF this] have "rne (r / quantum r) \<le> n" by simp
  then show ?thesis using quantum_pos[of r] by (simp add: rnd_def)
qed

lemma rnd_ge_grid:
  assumes "of_int n * quantum r \<le> r"
  shows "of_int n * quantum r \<le> rnd r"
proof -
  have "of_int n \<le> r / quantum r" using assms quantum_pos[of r] by (simp add: field_simps)
  from rne_mono[OF this] have "n \<le> rne (r / quantum r)" by simp
  then show ?thesis using quantum_pos[of r] by (simp add: rnd_def)
qed

lemma rnd_mono_pos:
  assumes "0 < r" "r \<le> s"
  shows "rnd r \<le> rnd s"
proof -
  let ?kx = "max (expo r - 52) (- 1074)" and ?ky = "max (expo s - 52) (- 1074)"
  have qx: "quantum r = 2 powi ?kx" and qy: "quantum s = 2 powi ?ky" by (simp_all add: quantum_def)
  have e: "expo r \<le> expo s" using assms by (rule expo_mono_pos)
  from assms have nz: "r \<noteq> 0" "s \<noteq> 0" by auto
  show ?thesis
  proof (cases "?kx = ?ky")
    case True
    then have q: "quantum r = quantum s" by (simp add: qx qy)
    have "r / quantum s \<le> s / quantum s" using assms quantum_pos[of s] by (simp add: divide_right_mono)
    from rne_mono[OF this] show ?thesis using quantum_pos[of s] by (simp add: rnd_def q)
  next
    case False
    with e have lt: "?kx < ?ky" and ky: "?ky = expo s - 52" and ex: "expo r < expo s" by auto
    define B :: real where "B = 2 powi (expo s)"
    have xB: "r \<le> B"
    proof -
      have "r < 2 powi (expo r + 1)" using expo_bounds[OF nz(1)] assms(1) by simp
      also have "\<dots> \<le> B" unfolding B_def using ex by (intro powi2_mono) simp
      finally show ?thesis by simp
    qed
    have By: "B \<le> s" unfolding B_def using expo_bounds[OF nz(2)] assms by simp
    have Bx: "B = of_int (2 ^ nat (expo s - ?kx)) * quantum r"
    proof -
      have "0 \<le> expo s - ?kx" using lt ky by simp
      then have "of_int (2 ^ nat (expo s - ?kx)) = (2::real) powi (expo s - ?kx)"
        by (simp add: powi2_int)
      then show ?thesis unfolding B_def qx by (simp flip: power_int_add)
    qed
    have Bq: "B = of_int (2 ^ 52) * quantum s"
    proof -
      have "(2::real) powi (52 + (expo s - 52)) = 2 powi 52 * 2 powi (expo s - 52)"
        by (rule power_int_add) simp
      then show ?thesis unfolding B_def qy ky by simp
    qed
    have "rnd r \<le> B" using rnd_le_grid[of r "2 ^ nat (expo s - ?kx)"] xB Bx by simp
    moreover have "B \<le> rnd s" using rnd_ge_grid[of "2 ^ 52" s] By Bq by simp
    ultimately show ?thesis by simp
  qed
qed

lemma rnd_mono:
  assumes "r \<le> s"
  shows "rnd r \<le> rnd s"
proof -
  consider "0 < r" | "r \<le> 0" "0 \<le> s" | "s < 0" by linarith
  then show ?thesis
  proof cases
    case 1
    then show ?thesis using assms by (rule rnd_mono_pos)
  next
    case 2
    have "rnd r \<le> 0" using rnd_nonneg[of "- r"] 2(1) by (simp add: rnd_minus)
    moreover have "0 \<le> rnd s" using 2(2) by (rule rnd_nonneg)
    ultimately show ?thesis by simp
  next
    case 3
    then have "0 < - s" "- s \<le> - r" using assms by simp_all
    from rnd_mono_pos[OF this] show ?thesis by (simp add: rnd_minus)
  qed
qed

lemma rnd_exact:
  assumes "r = of_int m * 2 powi k" "\<bar>m\<bar> < 2 ^ 53" "- 1074 \<le> k"
  shows "rnd r = r"
proof (cases "r = 0")
  case True
  then show ?thesis by simp
next
  case False
  let ?kq = "max (expo r - 52) (- 1074)"
  have "2 powi (expo r) \<le> \<bar>r\<bar>" using expo_bounds[OF False] by simp
  also have "\<bar>r\<bar> = \<bar>of_int m\<bar> * 2 powi k" unfolding assms(1) by (simp add: abs_mult)
  also have "\<dots> < 2 ^ 53 * 2 powi k"
  proof -
    have "real_of_int \<bar>m\<bar> < real_of_int (2 ^ 53)"
      using assms(2) by (rule iffD2[OF of_int_less_iff])
    then have "\<bar>real_of_int m\<bar> < 2 ^ 53" by simp
    moreover have "0 < (2::real) powi k" by simp
    ultimately show ?thesis by (rule mult_strict_right_mono)
  qed
  also have "\<dots> = 2 powi (53 + k)" by (simp add: power_int_add)
  finally have "expo r < 53 + k" by (rule powi2_less_imp)
  with assms(3) have le: "?kq \<le> k" by simp
  then have "0 \<le> k - ?kq" by simp
  then have "(2::real) powi (k - ?kq) = of_int (2 ^ nat (k - ?kq))" by (rule powi2_int)
  moreover have "r / quantum r = of_int m * 2 powi (k - ?kq)"
    unfolding assms(1) quantum_def by (simp add: power_int_diff)
  ultimately have "r / quantum r = of_int (m * 2 ^ nat (k - ?kq))" by simp
  then have "rne (r / quantum r) = m * 2 ^ nat (k - ?kq)" by (simp only: rne_of_int)
  then have "rnd r = of_int (m * 2 ^ nat (k - ?kq)) * quantum r" by (simp add: rnd_def)
  also have "\<dots> = (r / quantum r) * quantum r"
    using \<open>r / quantum r = of_int (m * 2 ^ nat (k - ?kq))\<close> by simp
  also have "\<dots> = r" using quantum_pos[of r] by simp
  finally show ?thesis .
qed

section \<open>Facts of the float64 model\<close>

subsection \<open>Float64 values and operations\<close>

lemma round64_exact:
  assumes "a = of_int m * 2 powi k" "\<bar>m\<bar> < 2 ^ 53" "- 1074 \<le> k" "k \<le> 971"
  shows "round64 a = Some a"
proof -
  have r: "rnd a = a" using assms(1,2,3) by (rule rnd_exact)
  have "real_of_int \<bar>m\<bar> < real_of_int (2 ^ 53)"
    using assms(2) by (rule iffD2[OF of_int_less_iff])
  then have m: "\<bar>real_of_int m\<bar> < 2 ^ 53" by simp
  have "(2::real) powi k \<le> 2 powi 971" using assms(4) by (rule powi2_mono)
  then have k: "(2::real) powi k \<le> 2 ^ 971" by simp
  have "\<bar>a\<bar> = \<bar>real_of_int m\<bar> * 2 powi k" unfolding assms(1) by (simp add: abs_mult)
  also have "\<dots> < 2 ^ 53 * 2 ^ 971"
    using m k by (intro mult_less_le_imp_less) simp_all
  also have "\<dots> = (2::real) ^ 1024" by (simp flip: power_add)
  finally show ?thesis by (simp add: round64_def r)
qed

lemma is_f64_I:
  "a = of_int m * 2 powi k \<Longrightarrow> \<bar>m\<bar> < 2 ^ 53 \<Longrightarrow> - 1074 \<le> k \<Longrightarrow> k \<le> 971 \<Longrightarrow> is_f64 a"
  unfolding is_f64_def by (rule round64_exact)

lemma is_f64_0: "is_f64 0"
  by (simp add: is_f64_def round64_def)

lemma round64_0: "round64 0 = Some 0"
  by (simp add: round64_def)

lemma round64_SomeD: "round64 a = Some b \<Longrightarrow> b = rnd a"
  by (simp add: round64_def split: if_splits)

lemma is_f64_rnd: "is_f64 a \<Longrightarrow> rnd a = a"
  by (simp add: is_f64_def round64_def split: if_splits)

lemma fsub_SomeD: "fsub p q = Some c \<Longrightarrow> \<exists>a b. p = Some a \<and> q = Some b \<and> c = rnd (a - b)"
  by (auto simp: fsub_def dest: round64_SomeD split: option.splits)

lemma fadd_SomeD: "fadd p q = Some c \<Longrightarrow> \<exists>a b. p = Some a \<and> q = Some b \<and> c = rnd (a + b)"
  by (auto simp: fadd_def dest: round64_SomeD split: option.splits)

lemma fmul_SomeD: "fmul p q = Some c \<Longrightarrow> \<exists>a b. p = Some a \<and> q = Some b \<and> c = rnd (a * b)"
  by (auto simp: fmul_def dest: round64_SomeD split: option.splits)

lemma fdiv_SomeD: "fdiv p w = Some c \<Longrightarrow> \<exists>a. p = Some a \<and> w \<noteq> 0 \<and> c = rnd (a / w)"
  by (auto simp: fdiv_def dest: round64_SomeD split: option.splits if_splits)

lemma f64_grid:
  assumes "is_f64 a"
  shows "\<exists>m. a = of_int m * 2 powi (- 1074)"
proof -
  define k where "k = max (expo a - 52) (- 1074)"
  define g :: real where "g = 2 powi (- 1074)"
  have "0 \<le> k + 1074" by (simp add: k_def)
  then have i: "(2::real) powi (k + 1074) = of_int (2 ^ nat (k + 1074))" by (rule powi2_int)
  have "(2::real) powi ((k + 1074) + (- 1074)) = 2 powi (k + 1074) * 2 powi (- 1074)"
    by (rule power_int_add) simp
  moreover have "(k + 1074) + (- 1074) = k" by simp
  ultimately have "(2::real) powi k = 2 powi (k + 1074) * g" by (simp only: g_def)
  then have q: "quantum a = of_int (2 ^ nat (k + 1074)) * g"
    unfolding quantum_def k_def[symmetric] i by simp
  have "a = of_int (rne (a / quantum a)) * quantum a"
    using is_f64_rnd[OF assms] by (simp add: rnd_def)
  then have "a = of_int (rne (a / quantum a)) * (of_int (2 ^ nat (k + 1074)) * g)"
    unfolding q .
  then have "a = of_int (rne (a / quantum a) * 2 ^ nat (k + 1074)) * g"
    by (simp only: of_int_mult mult.assoc)
  then show ?thesis unfolding g_def ..
qed

lemma rnd_sub_neg:
  assumes "is_f64 a" "is_f64 b" "a < b"
  shows "rnd (a - b) < 0"
proof -
  define g :: real where "g = 2 powi (- 1074)"
  from f64_grid[OF assms(1)] obtain m where m: "a = of_int m * g" unfolding g_def ..
  from f64_grid[OF assms(2)] obtain n where n: "b = of_int n * g" unfolding g_def ..
  have g: "0 < g" unfolding g_def by (rule zero_less_power_int) simp
  have "real_of_int m * g < real_of_int n * g" using assms(3) unfolding m n .
  then have "real_of_int m < real_of_int n" using g by (simp only: mult_less_cancel_right_pos)
  then have "m - n \<le> - 1" by simp
  then have "real_of_int (m - n) \<le> real_of_int (- 1)" by (rule iffD2[OF of_int_le_iff])
  then have "real_of_int (m - n) * g \<le> real_of_int (- 1) * g"
    using g by (intro mult_right_mono) simp_all
  moreover have "a - b = real_of_int (m - n) * g"
    unfolding m n by (simp only: of_int_diff left_diff_distrib)
  ultimately have "a - b \<le> of_int (- 1) * g" by (simp only:)
  from rnd_mono[OF this] have "rnd (a - b) \<le> rnd (of_int (- 1) * g)" .
  also have "rnd (of_int (- 1) * g) = of_int (- 1) * g"
    unfolding g_def by (rule rnd_exact[where m="- 1" and k="- 1074"]) simp_all
  also have "\<dots> < 0" using g by simp
  finally show ?thesis .
qed

lemma point_one_rounds: "round64 (1 / 10) = Some point_one"
proof -
  have "rnd (1 / 10) = point_one"
    unfolding point_one_def
    by (subst rnd_eqI[where e="- 4"]) (simp_all add: power_int_minus rne_def Let_def)
  then show ?thesis by (simp add: round64_def point_one_def)
qed

lemma is_f64_point_one: "is_f64 point_one"
  by (rule is_f64_I[where m=3602879701896397 and k="- 55"])
     (simp_all add: point_one_def power_int_minus)

lemma linspace_f64_length: "length (linspace_f64 a b n) = n"
  by (simp add: linspace_f64_def Let_def)

subsection \<open>Evaluating single operations\<close>

lemma round64_eqI:
  assumes "2 powi e \<le> \<bar>a\<bar>" "\<bar>a\<bar> < 2 powi (e + 1)"
    and "b = of_int (rne (a / 2 powi (max (e - 52) (- 1074)))) * 2 powi (max (e - 52) (- 1074))"
    and "\<bar>b\<bar> < 2 ^ 1024"
  shows "round64 a = Some b"
  using assms(3,4) by (simp add: round64_def rnd_eqI[OF assms(1,2)])

lemma fsub_exact: "is_f64 (a - b) \<Longrightarrow> fsub (Some a) (Some b) = Some (a - b)"
  by (simp add: fsub_def is_f64_def)

lemma fmul_exact: "is_f64 (a * b) \<Longrightarrow> fmul (Some a) (Some b) = Some (a * b)"
  by (simp add: fmul_def is_f64_def)

lemma fadd_exact: "is_f64 (a + b) \<Longrightarrow> fadd (Some a) (Some b) = Some (a + b)"
  by (simp add: fadd_def is_f64_def)

lemma fdiv_exact: "w \<noteq> 0 \<Longrightarrow> is_f64 (a / w) \<Longrightarrow> fdiv (Some a) w = Some (a / w)"
  by (simp add: fdiv_def is_f64_def)

lemma is_f64_int: "\<bar>m\<bar> < 2 ^ 53 \<Longrightarrow> is_f64 (of_int m)"
  by (rule is_f64_I[where m=m and k=0]) simp_all

lemma fsub_Some: "fsub (Some a) (Some b) = round64 (a - b)"
  by (simp add: fsub_def)

lemma fadd_Some: "fadd (Some a) (Some b) = round64 (a + b)"
  by (simp add: fadd_def)

lemma fmul_Some: "fmul (Some a) (Some b) = round64 (a * b)"
  by (simp add: fmul_def)

lemma fdiv_Some: "w \<noteq> 0 \<Longrightarrow> fdiv (Some a) w = round64 (a / w)"
  by (simp add: fdiv_def)

subsection \<open>What one call builds in float64\<close>

lemma update_figure_f64_eq:
  "update_figure_f64 s0 H W K head_left head_right
      excavation_depth_right excavation_depth_left =
    (length s0, s0 @ [\<lparr>data = [\<lparr>z = hydraulic_head_f64 (replicate 100 (linspace_f64 0 W 100))
                   (map (\<lambda>v. replicate 100 v) (linspace_f64 0 H 100)) W head_left head_right,
                 x = linspace_f64 0 W 100, y = linspace_f64 0 H 100,
                 contours_coloring = ''lines'',
                 showscale = False, contour_line = \<lparr>color = ''blue'', width = 1\<rparr>\<rparr>],
       fig_layout = \<lparr>title = Some ''Seepage Flow Around a Deep Excavation with Flow Net'',
         xaxis_title = Some ''Width (m)'', yaxis_title = Some ''Depth (m)'',
         xaxis_range = Some [Some 0, Some W], yaxis_range = Some [Some 0, Some H],
         layout_height = Some 600, layout_width = Some 900,
         shapes = [\<lparr>shape_type = ''rect'', x0 = fdiv (Some W) 2, x1 = Some W,
                y0 = Some H, y1 = fsub (Some H) (Some excavation_depth_right),
                line = \<lparr>color = ''Black'', width = 2\<rparr>,
                fillcolor = Some ''white'', layer = Some ''below''\<rparr>,
             \<lparr>shape_type = ''rect'', x0 = Some 0, x1 = fdiv (Some W) 2,
                y0 = Some H, y1 = fsub (Some H) (Some excavation_depth_left),
                line = \<lparr>color = ''Black'', width = 2\<rparr>,
                fillcolor = Some ''white'', layer = Some ''below''\<rparr>,
             \<lparr>shape_type = ''rect'',
                x0 = fsub (fdiv (Some W) 2) (Some (1 / 2)), x1 = fdiv (Some W) 2,
                y0 = Some H,
                y1 = fsub (Some H) (fadd (Some excavation_depth_right)
                       (fmul (Some point_one) (fsub (Some H) (Some excavation_depth_right)))),
                line = \<lparr>color = ''gray'', width = 1\<rparr>,
                fillcolor = Some ''gray'', layer = None\<rparr>]
           @ map (\<lambda>x_coord. \<lparr>shape_type = ''line'', x0 = x_coord, x1 = x_coord,
                y0 = Some 0, y1 = Some H, line = \<lparr>color = ''orange'', width = 3 / 2\<rparr>,
                fillcolor = None, layer = None\<rparr>) (linspace_f64 0 W 5)
           @ [\<lparr>shape_type = ''line'', x0 = Some 0, x1 = fdiv (Some W) 2,
                y0 = Some head_left, y1 = Some head_left,
                line = \<lparr>color = ''blue'', width = 2\<rparr>,
                fillcolor = None, layer = Some ''above''\<rparr>,
              \<lparr>shape_type = ''line'', x0 = fdiv (Some W) 2, x1 = Some W,
                y0 = Some head_right, y1 = Some head_right,
                line = \<lparr>color = ''blue'', width = 2\<rparr>,
                fillcolor = None, layer = Some ''above''\<rparr>],
         annotations = [\<lparr>ann_x = fdiv (Some W) 4, ann_y = Some head_left,
                ann_text = [Lit ''Water Level (Left): '', Num (Some head_left), Lit '' m''],
                showarrow = False, font_color = ''blue''\<rparr>,
              \<lparr>ann_x = fdiv (fmul (Some 3) (Some W)) 4, ann_y = Some head_right,
                ann_text = [Lit ''Water Level (Right): '', Num (Some head_right), Lit '' m''],
                showarrow = False, font_color = ''blue''\<rparr>]\<rparr>\<rparr>])"
  unfolding update_figure_f64_def Let_def meshgrid_def Figure_def split_conv linspace_f64_length
  by (simp add: add_shape_last add_trace_last add_annotation_last update_layout_last
      fold_add_shape_last empty_layout_def)

lemma update_figure_f64_data:
  "data (returned_figure (update_figure_f64 s0 H W K head_left head_right
      excavation_depth_right excavation_depth_left)) =
    [\<lparr>z = hydraulic_head_f64 (replicate 100 (linspace_f64 0 W 100))
           (map (\<lambda>v. replicate 100 v) (linspace_f64 0 H 100)) W head_left head_right,
      x = linspace_f64 0 W 100, y = linspace_f64 0 H 100, contours_coloring = ''lines'',
      showscale = False, contour_line = \<lparr>color = ''blue'', width = 1\<rparr>\<rparr>]"
  by (simp add: update_figure_f64_eq returned_figure_def)

lemma update_figure_f64_boxes:
  "take 3 (shapes (fig_layout (returned_figure (update_figure_f64 s0 H W K head_left head_right
      excavation_depth_right excavation_depth_left)))) =
    [\<lparr>shape_type = ''rect'', x0 = fdiv (Some W) 2, x1 = Some W,
        y0 = Some H, y1 = fsub (Some H) (Some excavation_depth_right),
        line = \<lparr>color = ''Black'', width = 2\<rparr>,
        fillcolor = Some ''white'', layer = Some ''below''\<rparr>,
     \<lparr>shape_type = ''rect'', x0 = Some 0, x1 = fdiv (Some W) 2,
        y0 = Some H, y1 = fsub (Some H) (Some excavation_depth_left),
        line = \<lparr>color = ''Black'', width = 2\<rparr>,
        fillcolor = Some ''white'', layer = Some ''below''\<rparr>,
     \<lparr>shape_type = ''rect'',
        x0 = fsub (fdiv (Some W) 2) (Some (1 / 2)), x1 = fdiv (Some W) 2,
        y0 = Some H,
        y1 = fsub (Some H) (fadd (Some excavation_depth_right)
               (fmul (Some point_one) (fsub (Some H) (Some excavation_depth_right)))),
        line = \<lparr>color = ''gray'', width = 1\<rparr>,
        fillcolor = Some ''gray'', layer = None\<rparr>]"
  by (simp add: update_figure_f64_eq returned_figure_def)

lemma hydraulic_head_f64_length:
  "length (hydraulic_head_f64 X Y W head_left head_right) = length X"
  by (simp add: hydraulic_head_f64_def)

lemma hydraulic_head_f64_row_length:
  "i < length X \<Longrightarrow> length (hydraulic_head_f64 X Y W head_left head_right ! i) = length (X ! i)"
  by (simp add: hydraulic_head_f64_def)

lemma hydraulic_head_f64_nth:
  "i < length X \<Longrightarrow> j < length (X ! i) \<Longrightarrow>
     hydraulic_head_f64 X Y W head_left head_right ! i ! j =
       fsub (Some head_left) (fdiv (fmul (fsub (Some head_left) (Some head_right)) (X ! i ! j)) W)"
  by (simp add: hydraulic_head_f64_def)

lemma linspace_f64_last: "1 < n \<Longrightarrow> linspace_f64 a b n ! (n - 1) = Some b"
  by (simp add: linspace_f64_def Let_def)

lemma linspace_f64_nth:
  assumes "j < n - 1" "fdiv (fsub (Some b) (Some a)) (real (n - 1)) \<noteq> Some 0"
  shows "linspace_f64 a b n ! j =
           fadd (fmul (Some (real j)) (fdiv (fsub (Some b) (Some a)) (real (n - 1)))) (Some a)"
proof -
  have n: "1 < n" "j < n" "j \<noteq> n - 1" "0 < n - 1" using assms(1) by simp_all
  show ?thesis using n assms(2) by (simp add: linspace_f64_def Let_def)
qed

lemma update_figure_f64_shapes:
  "shapes (fig_layout (returned_figure (update_figure_f64 s0 H W K head_left head_right
      excavation_depth_right excavation_depth_left))) =
    \<lparr>shape_type = ''rect'', x0 = fdiv (Some W) 2, x1 = Some W,
        y0 = Some H, y1 = fsub (Some H) (Some excavation_depth_right),
        line = \<lparr>color = ''Black'', width = 2\<rparr>,
        fillcolor = Some ''white'', layer = Some ''below''\<rparr> #
    \<lparr>shape_type = ''rect'', x0 = Some 0, x1 = fdiv (Some W) 2,
        y0 = Some H, y1 = fsub (Some H) (Some excavation_depth_left),
        line = \<lparr>color = ''Black'', width = 2\<rparr>,
        fillcolor = Some ''white'', layer = Some ''below''\<rparr> #
    \<lparr>shape_type = ''rect'',
        x0 = fsub (fdiv (Some W) 2) (Some (1 / 2)), x1 = fdiv (Some W) 2,
        y0 = Some H,
        y1 = fsub (Some H) (fadd (Some excavation_depth_right)
               (fmul (Some point_one) (fsub (Some H) (Some excavation_depth_right)))),
        line = \<lparr>color = ''gray'', width = 1\<rparr>,
        fillcolor = Some ''gray'', layer = None\<rparr> #
    map (\<lambda>x_coord. \<lparr>shape_type = ''line'', x0 = x_coord, x1 = x_coord,
        y0 = Some 0, y1 = Some H, line = \<lparr>color = ''orange'', width = 3 / 2\<rparr>,
        fillcolor = None, layer = None\<rparr>) (linspace_f64 0 W 5) @
    [\<lparr>shape_type = ''line'', x0 = Some 0, x1 = fdiv (Some W) 2,
        y0 = Some head_left, y1 = Some head_left,
        line = \<lparr>color = ''blue'', width = 2\<rparr>,
        fillcolor = None, layer = Some ''above''\<rparr>,
     \<lparr>shape_type = ''line'', x0 = fdiv (Some W) 2, x1 = Some W,
        y0 = Some head_right, y1 = Some head_right,
        line = \<lparr>color = ''blue'', width = 2\<rparr>,
        fillcolor = None, layer = Some ''above''\<rparr>]"
  by (simp add: update_figure_f64_eq returned_figure_def)

subsection \<open>The head expression\<close>

lemma head_f64_SomeD:
  assumes "fsub (Some hl) (fdiv (fmul (fsub (Some hl) (Some hr)) (Some a)) W) = Some u"
  shows "W \<noteq> 0 \<and> u = rnd (hl - rnd (rnd (rnd (hl - hr) * a) / W))"
proof -
  from fsub_SomeD[OF assms] obtain q where
    q: "fdiv (fmul (fsub (Some hl) (Some hr)) (Some a)) W = Some q" and u: "u = rnd (hl - q)"
    by auto
  from fdiv_SomeD[OF q] obtain p where
    p: "fmul (fsub (Some hl) (Some hr)) (Some a) = Some p" and W: "W \<noteq> 0"
    and q': "q = rnd (p / W)"
    by auto
  from fmul_SomeD[OF p] obtain d where
    d: "fsub (Some hl) (Some hr) = Some d" and p': "p = rnd (d * a)"
    by auto
  from fsub_SomeD[OF d] have "d = rnd (hl - hr)" by auto
  with u q' p' W show ?thesis by simp
qed

lemma abs_mult_bound:
  fixes m n :: int
  assumes "\<bar>m\<bar> \<le> 2 ^ 21" "\<bar>n\<bar> \<le> 2 ^ 20"
  shows "\<bar>m * n\<bar> < 2 ^ 53"
proof -
  have "\<bar>m * n\<bar> = \<bar>m\<bar> * \<bar>n\<bar>" by (rule abs_mult)
  also have "\<dots> \<le> 2 ^ 21 * 2 ^ 20" using assms by (intro mult_mono) simp_all
  also have "\<dots> < (2::int) ^ 53" by simp
  finally show ?thesis .
qed

lemma half_f64: "\<bar>n\<bar> < 2 ^ 53 \<Longrightarrow> is_f64 (of_int n / 2)"
  by (rule is_f64_I[where m=n and k="- 1"]) (simp_all add: power_int_minus)

lemma grid_exact:
  assumes "hl = of_int a / 2" "hr = of_int b / 2" "W = of_int w"
    and "\<bar>a\<bar> \<le> 2 ^ 20" "\<bar>b\<bar> \<le> 2 ^ 20" "\<bar>w\<bar> \<le> 2 ^ 20"
  shows "is_f64 hl" "is_f64 hr" "is_f64 (hl - hr)" "is_f64 ((hl - hr) * W)"
proof -
  show "is_f64 hl" unfolding assms(1) using assms(4) by (intro half_f64) simp
  show "is_f64 hr" unfolding assms(2) using assms(5) by (intro half_f64) simp
  have d: "\<bar>a - b\<bar> \<le> 2 ^ 21" using assms(4,5) by simp
  have "hl - hr = of_int (a - b) / 2" unfolding assms(1,2) by (simp add: diff_divide_distrib)
  moreover have "is_f64 (of_int (a - b) / 2)" using d by (intro half_f64) simp
  ultimately show "is_f64 (hl - hr)" by (simp only:)
  have "(hl - hr) * W = of_int ((a - b) * w) / 2"
    unfolding assms(1,2,3) by (simp add: diff_divide_distrib left_diff_distrib)
  moreover have "is_f64 (of_int ((a - b) * w) / 2)"
    using abs_mult_bound[OF d assms(6)] by (rule half_f64)
  ultimately show "is_f64 ((hl - hr) * W)" by (simp only:)
qed

lemma head_f64_at_zero:
  assumes "W \<noteq> 0" "is_f64 hl" "fsub (Some hl) (Some hr) \<noteq> None"
  shows "fsub (Some hl) (fdiv (fmul (fsub (Some hl) (Some hr)) (Some 0)) W) = Some hl"
proof -
  from assms(3) obtain d where d: "fsub (Some hl) (Some hr) = Some d" by blast
  have "fmul (Some d) (Some 0) = Some 0" by (simp add: fmul_Some round64_0)
  moreover have "fdiv (Some 0) W = Some 0" using assms(1) by (simp add: fdiv_def round64_0)
  moreover have "fsub (Some hl) (Some 0) = Some hl"
    using assms(2) by (simp add: fsub_Some is_f64_def)
  ultimately show ?thesis by (simp add: d)
qed

lemma head_f64_at_W:
  assumes "W \<noteq> 0" "is_f64 hr" "is_f64 (hl - hr)" "is_f64 ((hl - hr) * W)"
  shows "fsub (Some hl) (fdiv (fmul (fsub (Some hl) (Some hr)) (Some W)) W) = Some hr"
proof -
  have d: "fsub (Some hl) (Some hr) = Some (hl - hr)" using assms(3) by (rule fsub_exact)
  have p: "fmul (Some (hl - hr)) (Some W) = Some ((hl - hr) * W)"
    using assms(4) by (rule fmul_exact)
  have "(hl - hr) * W / W = hl - hr" using assms(1) by simp
  then have q: "fdiv (Some ((hl - hr) * W)) W = Some (hl - hr)"
    using assms(1,3) by (simp add: fdiv_def is_f64_def)
  have "hl - (hl - hr) = hr" by simp
  then have r: "fsub (Some hl) (Some (hl - hr)) = Some hr"
    using assms(2) by (simp add: fsub_Some is_f64_def)
  show ?thesis by (simp only: d p q r)
qed

lemma head_f64_lower:
  assumes "0 < W" "is_f64 hr" "is_f64 (hl - hr)" "is_f64 ((hl - hr) * W)"
    and u: "u = rnd (hl - rnd (rnd (rnd (hl - hr) * a) / W))"
  shows "hr \<le> hl \<Longrightarrow> a \<le> W \<Longrightarrow> hr \<le> u"
    and "hl \<le> hr \<Longrightarrow> a \<le> W \<Longrightarrow> u \<le> hr"
proof -
  have d: "rnd (hl - hr) = hl - hr" using assms(3) by (rule is_f64_rnd)
  have p: "rnd ((hl - hr) * W) = (hl - hr) * W" using assms(4) by (rule is_f64_rnd)
  have r: "rnd hr = hr" using assms(2) by (rule is_f64_rnd)
  have W: "W \<noteq> 0" using assms(1) by simp
  {
    assume le: "hr \<le> hl" "a \<le> W"
    have "(hl - hr) * a \<le> (hl - hr) * W" using le by (intro mult_left_mono) simp_all
    from rnd_mono[OF this] have "rnd ((hl - hr) * a) \<le> (hl - hr) * W" by (simp only: p)
    then have "rnd ((hl - hr) * a) / W \<le> (hl - hr) * W / W"
      using assms(1) by (intro divide_right_mono) simp_all
    then have "rnd ((hl - hr) * a) / W \<le> hl - hr" using W by simp
    from rnd_mono[OF this] have "rnd (rnd ((hl - hr) * a) / W) \<le> hl - hr" by (simp only: d)
    then have "hr \<le> hl - rnd (rnd ((hl - hr) * a) / W)" by simp
    from rnd_mono[OF this] show "hr \<le> u" by (simp only: r u d)
  }
  {
    assume le: "hl \<le> hr" "a \<le> W"
    have "(hl - hr) * W \<le> (hl - hr) * a" using le by (intro mult_left_mono_neg) simp_all
    from rnd_mono[OF this] have "(hl - hr) * W \<le> rnd ((hl - hr) * a)" by (simp only: p)
    then have "(hl - hr) * W / W \<le> rnd ((hl - hr) * a) / W"
      using assms(1) by (intro divide_right_mono) simp_all
    then have "hl - hr \<le> rnd ((hl - hr) * a) / W" using W by simp
    from rnd_mono[OF this] have "hl - hr \<le> rnd (rnd ((hl - hr) * a) / W)" by (simp only: d)
    then have "hl - rnd (rnd ((hl - hr) * a) / W) \<le> hr" by simp
    from rnd_mono[OF this] show "u \<le> hr" by (simp only: r u d)
  }
qed

lemma pile_strict:
  assumes "H = of_int a / 2" "e = of_int b / 2" "\<bar>a\<bar> \<le> 2 ^ 20" "\<bar>b\<bar> \<le> 2 ^ 20" "e < H"
    and u: "fsub (Some H) (fadd (Some e) (fmul (Some point_one) (fsub (Some H) (Some e)))) = Some u"
    and v: "fsub (Some H) (Some e) = Some v"
  shows "u < v"
proof -
  have fe: "is_f64 e" unfolding assms(2) using assms(4) by (intro half_f64) simp
  have d: "H - e = of_int (a - b) / 2" unfolding assms(1,2) by (simp add: diff_divide_distrib)
  have "a - b \<ge> 1" using assms(5) unfolding assms(1,2) by simp
  then have "real_of_int 1 \<le> real_of_int (a - b)" by (rule iffD2[OF of_int_le_iff])
  then have half: "1 / 2 \<le> H - e" unfolding d by simp
  have fd: "is_f64 (H - e)" unfolding d using assms(3,4) by (intro half_f64) simp
  from fsub_SomeD[OF v] have v': "v = H - e" by (simp add: is_f64_rnd[OF fd])
  from fsub_SomeD[OF u] obtain w where
    w: "fadd (Some e) (fmul (Some point_one) (fsub (Some H) (Some e))) = Some w"
    and u': "u = rnd (H - w)" by auto
  from fadd_SomeD[OF w] obtain g where
    g: "fmul (Some point_one) (fsub (Some H) (Some e)) = Some g" and w': "w = rnd (e + g)"
    by auto
  from fmul_SomeD[OF g] obtain t where
    t: "fsub (Some H) (Some e) = Some t" and g': "g = rnd (point_one * t)" by auto
  from fsub_SomeD[OF t] have t': "t = H - e" by (simp add: is_f64_rnd[OF fd])
  have "1 / 32 \<le> point_one * t" using half unfolding t' point_one_def by simp
  from rnd_mono[OF this] have "rnd (1 / 32) \<le> g" unfolding g' .
  moreover have "rnd (1 / 32) = 1 / 32"
    by (rule rnd_exact[where m=1 and k="- 5"]) (simp_all add: power_int_minus)
  ultimately have g32: "1 / 32 \<le> g" by simp
  have e32: "e + 1 / 32 = of_int (16 * b + 1) * 2 powi (- 5)"
    unfolding assms(2) by (simp add: power_int_minus field_simps)
  have b16: "\<bar>16 * b + 1\<bar> < 2 ^ 53" using assms(4) by simp
  have "rnd (e + 1 / 32) = e + 1 / 32"
    using e32 b16 by (rule rnd_exact) simp
  moreover have "rnd (e + 1 / 32) \<le> w" unfolding w' using g32 by (intro rnd_mono) simp
  ultimately have "e + 1 / 32 \<le> w" by simp
  then have "H - w \<le> H - e - 1 / 32" by simp
  from rnd_mono[OF this] have "u \<le> rnd (H - e - 1 / 32)" unfolding u' .
  moreover have "rnd (H - e - 1 / 32) = H - e - 1 / 32"
  proof (rule rnd_exact[where m="16 * (a - b) - 1" and k="- 5"])
    show "H - e - 1 / 32 = of_int (16 * (a - b) - 1) * 2 powi (- 5)"
      unfolding d by (simp add: power_int_minus field_simps)
    show "\<bar>16 * (a - b) - 1\<bar> < 2 ^ 53" using assms(3,4) by simp
  qed simp
  ultimately show ?thesis unfolding v' by simp
qed

subsection \<open>Finite results\<close>

lemma round64_finite:
  assumes "\<bar>a\<bar> \<le> 2 ^ k" "k \<le> 52"
  shows "round64 a = Some (rnd a)" and "\<bar>rnd a\<bar> \<le> 2 ^ k"
proof -
  have "(2::int) ^ k < 2 ^ 53" using assms(2) by (intro power_strict_increasing) simp_all
  then have m: "\<bar>(2::int) ^ k\<bar> < 2 ^ 53" by simp
  have e: "rnd (2 ^ k) = 2 ^ k"
    using _ m by (rule rnd_exact[where m="2 ^ k" and k=0]) simp_all
  have le: "a \<le> 2 ^ k" and ge: "- (2 ^ k) \<le> a" using assms(1) by (simp_all add: abs_le_iff)
  have "rnd a \<le> rnd (2 ^ k)" using le by (rule rnd_mono)
  moreover have "rnd (- (2 ^ k)) \<le> rnd a" using ge by (rule rnd_mono)
  ultimately have "rnd a \<le> 2 ^ k" and "- (2 ^ k) \<le> rnd a" by (simp_all only: e rnd_minus)
  then show b: "\<bar>rnd a\<bar> \<le> 2 ^ k" by (simp add: abs_le_iff)
  have "(2::real) ^ k < 2 ^ 1024" using assms(2) by (intro power_strict_increasing) simp_all
  with b have "\<bar>rnd a\<bar> < 2 ^ 1024" by (rule le_less_trans)
  then show "round64 a = Some (rnd a)" by (simp add: round64_def)
qed

lemma fsub_le_left:
  assumes "is_f64 h" "0 \<le> e" "fsub (Some h) (Some e) = Some v"
  shows "v \<le> h"
proof -
  from fsub_SomeD[OF assms(3)] have v: "v = rnd (h - e)" by simp
  have "h - e \<le> h" using assms(2) by simp
  from rnd_mono[OF this] show ?thesis unfolding v by (simp only: is_f64_rnd[OF assms(1)])
qed

lemma pile_grid:
  assumes "H = of_int a / 2" "e = of_int b / 2" "\<bar>a\<bar> \<le> 2 ^ 20" "\<bar>b\<bar> \<le> 2 ^ 20" "e < H"
  shows "\<exists>u v. fsub (Some H) (fadd (Some e) (fmul (Some point_one) (fsub (Some H) (Some e)))) =
                 Some u \<and> fsub (Some H) (Some e) = Some v \<and> u < v"
proof -
  have "real_of_int \<bar>a\<bar> \<le> real_of_int (2 ^ 20)" using assms(3) by (rule iffD2[OF of_int_le_iff])
  then have ra: "\<bar>real_of_int a\<bar> \<le> 1048576" by simp
  have "real_of_int \<bar>b\<bar> \<le> real_of_int (2 ^ 20)" using assms(4) by (rule iffD2[OF of_int_le_iff])
  then have rb: "\<bar>real_of_int b\<bar> \<le> 1048576" by simp
  have hb: "\<bar>H\<bar> \<le> 524288" and eb: "\<bar>e\<bar> \<le> 524288" using ra rb unfolding assms(1,2) by simp_all
  have d: "H - e = of_int (a - b) / 2" unfolding assms(1,2) by (simp add: diff_divide_distrib)
  have fd: "is_f64 (H - e)" unfolding d using assms(3,4) by (intro half_f64) simp
  have t: "fsub (Some H) (Some e) = Some (H - e)" using fd by (rule fsub_exact)
  define g where "g = rnd (point_one * (H - e))"
  have "\<bar>point_one * (H - e)\<bar> \<le> 2 ^ 20" using hb eb unfolding point_one_def by simp
  from round64_finite[OF this]
  have g: "fmul (Some point_one) (Some (H - e)) = Some g" and gb: "\<bar>g\<bar> \<le> 2 ^ 20"
    unfolding fmul_Some g_def by simp_all
  define w where "w = rnd (e + g)"
  have "\<bar>e + g\<bar> \<le> 2 ^ 21" using eb gb by simp
  from round64_finite[OF this]
  have w: "fadd (Some e) (Some g) = Some w" and wb: "\<bar>w\<bar> \<le> 2 ^ 21"
    unfolding fadd_Some w_def by simp_all
  define u where "u = rnd (H - w)"
  have "\<bar>H - w\<bar> \<le> 2 ^ 22" using hb wb by simp
  from round64_finite[OF this]
  have u: "fsub (Some H) (Some w) = Some u" unfolding fsub_Some u_def by simp
  have pile: "fsub (Some H) (fadd (Some e) (fmul (Some point_one) (fsub (Some H) (Some e)))) =
      Some u"
    by (simp only: t g w u)
  from pile_strict[OF assms pile t] have "u < H - e" .
  with pile t show ?thesis by blast
qed

subsection \<open>Evaluations at particular inputs\<close>

lemma f64_5: "is_f64 5"
  using is_f64_int[of 5] by simp

lemma f64_8: "is_f64 8"
  using is_f64_int[of 8] by simp

lemma f64_10: "is_f64 10"
  using is_f64_int[of 10] by simp

lemma f64_30: "is_f64 30"
  using is_f64_int[of 30] by simp

lemma f64_15_2: "is_f64 (15 / 2)"
  by (rule is_f64_I[where m=15 and k="- 1"]) (simp_all add: power_int_minus)

lemma f64_near_3_10: "is_f64 (5404319552844595 / 18014398509481984)"
  by (rule is_f64_I[where m=5404319552844595 and k="- 54"]) (simp_all add: power_int_minus)

lemma head_example_10:
  "fsub (Some 5) (fdiv (fmul (fsub (Some 5) (Some point_one)) (Some 10)) 10) =
     Some (56294995342131 / 562949953421312)"
proof -
  have d: "fsub (Some 5) (Some point_one) = Some (2758454771764429 / 562949953421312)"
    unfolding fsub_Some point_one_def
    by (rule round64_eqI[where e=2]) (simp_all add: power_int_minus rne_def Let_def)
  have p: "fmul (Some (2758454771764429 / 562949953421312)) (Some 10) = Some 49"
    unfolding fmul_Some
    by (rule round64_eqI[where e=5]) (simp_all add: power_int_minus rne_def Let_def)
  have q: "fdiv (Some 49) 10 = Some (2758454771764429 / 562949953421312)"
    unfolding fdiv_Some[of 10 49, simplified]
    by (rule round64_eqI[where e=2]) (simp_all add: power_int_minus rne_def Let_def)
  have r: "fsub (Some 5) (Some (2758454771764429 / 562949953421312)) =
      Some (56294995342131 / 562949953421312)"
    unfolding fsub_Some
    by (rule round64_eqI[where e="- 4"]) (simp_all add: power_int_minus rne_def Let_def)
  show ?thesis by (simp only: d p q r)
qed

lemma head_example_30:
  "fsub (Some (15 / 2)) (fdiv (fmul (fsub (Some (15 / 2))
       (Some (5404319552844595 / 18014398509481984))) (Some 30)) 30) =
     Some (337769972052787 / 1125899906842624)"
proof -
  have d: "fsub (Some (15 / 2)) (Some (5404319552844595 / 18014398509481984)) =
      Some (8106479329266893 / 1125899906842624)"
    unfolding fsub_Some
    by (rule round64_eqI[where e=2]) (simp_all add: power_int_minus rne_def Let_def)
  have p: "fmul (Some (8106479329266893 / 1125899906842624)) (Some 30) = Some 216"
    unfolding fmul_Some
    by (rule round64_eqI[where e=7]) (simp_all add: power_int_minus rne_def Let_def)
  have q: "fdiv (Some 216) 30 = Some (8106479329266893 / 1125899906842624)"
    unfolding fdiv_Some[of 30 216, simplified]
    by (rule round64_eqI[where e=2]) (simp_all add: power_int_minus rne_def Let_def)
  have r: "fsub (Some (15 / 2)) (Some (8106479329266893 / 1125899906842624)) =
      Some (337769972052787 / 1125899906842624)"
    unfolding fsub_Some
    by (rule round64_eqI[where e="- 2"]) (simp_all add: power_int_minus rne_def Let_def)
  show ?thesis by (simp only: d p q r)
qed

lemma head_example_30_finite:
  "fsub (Some (15 / 2)) (Some (5404319552844595 / 18014398509481984)) \<noteq> None"
proof -
  have "fsub (Some (15 / 2)) (Some (5404319552844595 / 18014398509481984)) =
      Some (8106479329266893 / 1125899906842624)"
    unfolding fsub_Some
    by (rule round64_eqI[where e=2]) (simp_all add: power_int_minus rne_def Let_def)
  then show ?thesis by simp
qed

lemma pile_eval:
  "fsub (Some 10) (fadd (Some (5629499534213119 / 562949953421312))
     (fmul (Some point_one) (fsub (Some 10) (Some (5629499534213119 / 562949953421312))))) =
   Some (1 / 562949953421312)"
proof -
  have t: "fsub (Some 10) (Some (5629499534213119 / 562949953421312)) =
      Some (1 / 562949953421312)"
    unfolding fsub_Some
    by (rule round64_eqI[where e="- 49"]) (simp_all add: power_int_minus rne_def Let_def)
  have u: "fmul (Some point_one) (Some (1 / 562949953421312)) =
      Some (3602879701896397 / 20282409603651670423947251286016)"
    unfolding fmul_Some point_one_def
    by (rule round64_eqI[where e="- 53"]) (simp_all add: power_int_minus rne_def Let_def)
  have v: "fadd (Some (5629499534213119 / 562949953421312))
      (Some (3602879701896397 / 20282409603651670423947251286016)) =
      Some (5629499534213119 / 562949953421312)"
    unfolding fadd_Some
    by (rule round64_eqI[where e=3]) (simp_all add: power_int_minus rne_def Let_def)
  show ?thesis by (simp only: t u v)
qed

lemma floor_eval:
  "fsub (Some 10) (Some (5629499534213119 / 562949953421312)) = Some (1 / 562949953421312)"
  unfolding fsub_Some
  by (rule round64_eqI[where e="- 49"]) (simp_all add: power_int_minus rne_def Let_def)

lemma pile_eval_7:
  "fsub (Some 10) (fadd (Some 7) (fmul (Some point_one) (fsub (Some 10) (Some 7)))) =
     Some (3039929748475085 / 1125899906842624)"
proof -
  have "is_f64 (10 - 7)" using is_f64_int[of 3] by simp
  from fsub_exact[OF this] have t: "fsub (Some 10) (Some 7) = Some 3" by simp
  have g: "fmul (Some point_one) (Some 3) = Some (1351079888211149 / 4503599627370496)"
    unfolding fmul_Some point_one_def
    by (rule round64_eqI[where e="- 2"]) (simp_all add: power_int_minus rne_def Let_def)
  have w: "fadd (Some 7) (Some (1351079888211149 / 4503599627370496)) =
      Some (8219069319951155 / 1125899906842624)"
    unfolding fadd_Some
    by (rule round64_eqI[where e=2]) (simp_all add: power_int_minus rne_def Let_def)
  have u: "fsub (Some 10) (Some (8219069319951155 / 1125899906842624)) =
      Some (3039929748475085 / 1125899906842624)"
    unfolding fsub_Some
    by (rule round64_eqI[where e=1]) (simp_all add: power_int_minus rne_def Let_def)
  show ?thesis by (simp only: t g w u)
qed

section \<open>Claims\<close>

subsection \<open>The head field\<close>

text \<open>
  Claim C1. For every call with \<open>W > 0\<close> the figure holds one contour trace; its x-data are
  the 100 samples \<^verbatim>\<open>np.linspace(0, W, 100)\<close>, the last of them \<open>W\<close> itself and sample \<open>j\<close>
  the float64 value of \<open>j * step + 0\<close> for the step \<open>(W - 0) / 99\<close> (where that step does
  not round to zero); its z-data are 100 rows of 100 entries, the entry in row \<open>i\<close> and
  column \<open>j\<close> being the float64 value of \<open>head_left - (head_left - head_right) * x\<^sub>j / W\<close>,
  each operation rounded in the order in which the source writes it; and the entry does not
  depend on the row \<open>i\<close>, that is on \<open>y\<close>.
\<close>

theorem C1_head_field:
  assumes "0 < W"
  shows "\<exists>c. data (returned_figure (update_figure_f64 s0 H W K head_left head_right
              excavation_depth_right excavation_depth_left)) = [c] \<and>
           x c = linspace_f64 0 W 100 \<and>
           length (x c) = 100 \<and>
           x c ! 99 = Some W \<and>
           (fdiv (fsub (Some W) (Some 0)) 99 \<noteq> Some 0 \<longrightarrow>
              (\<forall>j<99. x c ! j =
                 fadd (fmul (Some (real j)) (fdiv (fsub (Some W) (Some 0)) 99)) (Some 0))) \<and>
           length (z c) = 100 \<and>
           (\<forall>i<100. length (z c ! i) = 100) \<and>
           (\<forall>i<100. \<forall>j<100.
              z c ! i ! j = fsub (Some head_left)
                 (fdiv (fmul (fsub (Some head_left) (Some head_right)) (x c ! j)) W)) \<and>
           (\<forall>i<100. \<forall>i'<100. \<forall>j<100. z c ! i ! j = z c ! i' ! j)"
proof -
  let ?xs = "linspace_f64 0 W 100"
  let ?X = "replicate 100 ?xs"
  let ?Y = "map (\<lambda>v. replicate 100 v) (linspace_f64 0 H 100)"
  let ?z = "hydraulic_head_f64 ?X ?Y W head_left head_right"
  let ?c = "\<lparr>z = ?z, x = ?xs, y = linspace_f64 0 H 100,
             contours_coloring = ''lines'', showscale = False,
             contour_line = \<lparr>color = ''blue'', width = 1\<rparr>\<rparr>"
  have zc: "z ?c = ?z" and xc: "x ?c = ?xs" by simp_all
  have last: "?xs ! 99 = Some W" using linspace_f64_last[of 100 0 W] by simp
  have grid: "fdiv (fsub (Some W) (Some 0)) 99 \<noteq> Some 0 \<longrightarrow>
      (\<forall>j<99. ?xs ! j = fadd (fmul (Some (real j)) (fdiv (fsub (Some W) (Some 0)) 99)) (Some 0))"
    using linspace_f64_nth[of _ 100 W 0] by simp
  have rows: "\<forall>i<100. length (?z ! i) = 100"
    by (simp add: hydraulic_head_f64_row_length linspace_f64_length)
  have entry: "\<forall>i<100. \<forall>j<100. ?z ! i ! j = fsub (Some head_left)
                 (fdiv (fmul (fsub (Some head_left) (Some head_right)) (?xs ! j)) W)"
    by (simp add: hydraulic_head_f64_nth linspace_f64_length)
  have indep: "\<forall>i<100. \<forall>i'<100. \<forall>j<100. ?z ! i ! j = ?z ! i' ! j"
    by (simp add: entry)
  have "data (returned_figure (update_figure_f64 s0 H W K head_left head_right
              excavation_depth_right excavation_depth_left)) = [?c]"
    by (rule update_figure_f64_data)
  moreover have "x ?c = ?xs" by (rule xc)
  moreover have "length (x ?c) = 100" unfolding xc by (rule linspace_f64_length)
  moreover have "x ?c ! 99 = Some W" unfolding xc by (rule last)
  moreover have "fdiv (fsub (Some W) (Some 0)) 99 \<noteq> Some 0 \<longrightarrow>
      (\<forall>j<99. x ?c ! j = fadd (fmul (Some (real j)) (fdiv (fsub (Some W) (Some 0)) 99)) (Some 0))"
    unfolding xc by (rule grid)
  moreover have "length (z ?c) = 100"
    unfolding zc by (simp only: hydraulic_head_f64_length length_replicate)
  moreover have "\<forall>i<100. length (z ?c ! i) = 100" unfolding zc by (rule rows)
  moreover have "\<forall>i<100. \<forall>j<100. z ?c ! i ! j = fsub (Some head_left)
                 (fdiv (fmul (fsub (Some head_left) (Some head_right)) (x ?c ! j)) W)"
    unfolding zc xc by (rule entry)
  moreover have "\<forall>i<100. \<forall>i'<100. \<forall>j<100. z ?c ! i ! j = z ?c ! i' ! j"
    unfolding zc by (rule indep)
  ultimately show ?thesis by blast
qed

text \<open>
  The default slider values, \<open>H = 10\<close>, \<open>W = 20\<close>, heads 8 and 5. Sample 33 is the float64
  \<open>7505999378950827 / 2^50\<close> (it prints as 6.666666666666667, and is not \<open>20 / 3\<close>); the head
  there is 7 in every row.
\<close>

theorem C1_head_field_witness:
  "\<exists>c. data (returned_figure (update_figure_f64 [] 10 20 (1 / 65536) 8 5 5 0)) = [c] \<and>
       x c ! 33 = Some (7505999378950827 / 1125899906842624) \<and>
       x c ! 99 = Some 20 \<and>
       z c ! 7 ! 33 = Some 7 \<and> z c ! 7 ! 33 = z c ! 80 ! 33"
proof -
  have pos: "(0::real) < 20" by simp
  have "is_f64 (20 - 0)" using is_f64_int[of 20] by simp
  from fsub_exact[OF this] have delta: "fsub (Some 20) (Some 0) = Some 20" by simp
  have step: "fdiv (Some 20) 99 = Some (7278544852315953 / 36028797018963968)"
    unfolding fdiv_Some[of 99 20, simplified]
    by (rule round64_eqI[where e="- 3"]) (simp_all add: power_int_minus rne_def Let_def)
  have m: "fmul (Some 33) (Some (7278544852315953 / 36028797018963968)) =
      Some (7505999378950827 / 1125899906842624)"
    unfolding fmul_Some
    by (rule round64_eqI[where e=2]) (simp_all add: power_int_minus rne_def Let_def)
  have "is_f64 (7505999378950827 / 1125899906842624 + 0)"
    by (rule is_f64_I[where m=7505999378950827 and k="- 50"]) (simp_all add: power_int_minus)
  from fadd_exact[OF this]
  have a0: "fadd (Some (7505999378950827 / 1125899906842624)) (Some 0) =
      Some (7505999378950827 / 1125899906842624)" by simp
  have "is_f64 (8 - 5)" using is_f64_int[of 3] by simp
  from fsub_exact[OF this] have d: "fsub (Some 8) (Some 5) = Some 3" by simp
  have p: "fmul (Some 3) (Some (7505999378950827 / 1125899906842624)) = Some 20"
    unfolding fmul_Some
    by (rule round64_eqI[where e=4]) (simp_all add: power_int_minus rne_def Let_def)
  have "is_f64 (20 / 20)" using is_f64_int[of 1] by simp
  from fdiv_exact[OF _ this] have q: "fdiv (Some 20) 20 = Some 1" by simp
  have "is_f64 (8 - 1)" using is_f64_int[of 7] by simp
  from fsub_exact[OF this] have r: "fsub (Some 8) (Some 1) = Some 7" by simp
  from C1_head_field [OF pos, of "[]" 10 "1 / 65536" 8 5 5 0]
  obtain c where c: "data (returned_figure (update_figure_f64 [] 10 20 (1 / 65536) 8 5 5 0)) = [c]"
    and l: "x c ! 99 = Some 20"
    and g: "fdiv (fsub (Some 20) (Some 0)) 99 \<noteq> Some 0 \<longrightarrow>
              (\<forall>j<99. x c ! j =
                 fadd (fmul (Some (real j)) (fdiv (fsub (Some 20) (Some 0)) 99)) (Some 0))"
    and e: "\<forall>i<100. \<forall>j<100. z c ! i ! j =
              fsub (Some 8) (fdiv (fmul (fsub (Some 8) (Some 5)) (x c ! j)) 20)"
    and w: "\<forall>i<100. \<forall>i'<100. \<forall>j<100. z c ! i ! j = z c ! i' ! j"
    by blast
  have nz: "fdiv (fsub (Some 20) (Some 0)) 99 \<noteq> Some 0" unfolding delta step by simp
  from g nz have "x c ! 33 = fadd (fmul (Some (real 33)) (fdiv (fsub (Some 20) (Some 0)) 99)) (Some 0)"
    by simp
  then have x33: "x c ! 33 = Some (7505999378950827 / 1125899906842624)"
    unfolding delta step by (simp add: m a0)
  have "z c ! 7 ! 33 = fsub (Some 8) (fdiv (fmul (fsub (Some 8) (Some 5)) (x c ! 33)) 20)"
    using e [rule_format, of 7 33] by simp
  then have z33: "z c ! 7 ! 33 = Some 7" by (simp only: x33 d p q r)
  have "z c ! 7 ! 33 = z c ! 80 ! 33" using w [rule_format, of 7 80 33] by simp
  with c x33 l z33 show ?thesis by blast
qed

subsection \<open>The head at the two boundaries\<close>

text \<open>
  Claim C2 says that for every \<open>W > 0\<close> and all heads the head at \<open>x = 0\<close> is exactly
  \<open>head_left\<close> and the head at \<open>x = W\<close> is exactly \<open>head_right\<close>. The second half fails. For
  \<open>W = 10\<close>, \<open>head_left = 5\<close> and \<open>head_right\<close> the float64 nearest to 0.1, the difference of
  the heads rounds, its product with \<open>W\<close> rounds to 49, and the head computed at \<open>x = W\<close> is
  \<open>56294995342131 / 2^49\<close>, which prints as 0.09999999999999964 and is not \<open>head_right\<close>.
\<close>

theorem C2_counterexample:
  "is_f64 5 \<and> is_f64 point_one \<and> is_f64 10 \<and> (0::real) < 10 \<and>
   hydraulic_head_f64 [[Some 0, Some 10]] [[Some 0, Some 0]] 10 5 point_one ! 0 ! 1 =
     Some (56294995342131 / 562949953421312) \<and>
   Some (56294995342131 / 562949953421312) \<noteq> Some point_one"
proof -
  have "hydraulic_head_f64 [[Some 0, Some 10]] [[Some 0, Some 0]] 10 5 point_one ! 0 ! 1 =
      fsub (Some 5) (fdiv (fmul (fsub (Some 5) (Some point_one)) (Some 10)) 10)"
    using hydraulic_head_f64_nth[of 0 "[[Some 0, Some 10]]" 1] by simp
  then have h: "hydraulic_head_f64 [[Some 0, Some 10]] [[Some 0, Some 0]] 10 5 point_one ! 0 ! 1 =
      Some (56294995342131 / 562949953421312)"
    by (simp only: head_example_10)
  have ne: "Some (56294995342131 / 562949953421312) \<noteq> Some point_one"
    by (simp add: point_one_def)
  show ?thesis using f64_5 f64_10 is_f64_point_one h ne by simp
qed

text \<open>
  Claim C2, amended. Let \<open>W > 0\<close>. Where the x-coordinate of an entry is 0, the head is
  \<open>head_left\<close> exactly, for every float64 \<open>head_left\<close> and every \<open>head_right\<close> for which the
  difference of the heads is finite. Where the x-coordinate is \<open>W\<close>, the head is
  \<open>head_right\<close> exactly, provided that \<open>head_left - head_right\<close> and
  \<open>(head_left - head_right) * W\<close> are float64 values, that is, that neither operation
  rounds. Both provisos hold when the heads are multiples of 0.5 and \<open>W\<close> is an integer, of
  magnitudes up to \<open>2^19\<close> and \<open>2^20\<close>: then the head is \<open>head_left\<close> at \<open>x = 0\<close> and
  \<open>head_right\<close> at \<open>x = W\<close>. All values of the sliders are of this kind.
\<close>

theorem C2_boundary_heads:
  assumes "0 < W" "i < length X" "j < length (X ! i)"
  shows "(X ! i ! j = Some 0 \<longrightarrow> is_f64 head_left \<longrightarrow>
            fsub (Some head_left) (Some head_right) \<noteq> None \<longrightarrow>
            hydraulic_head_f64 X Y W head_left head_right ! i ! j = Some head_left) \<and>
         (X ! i ! j = Some W \<longrightarrow> is_f64 head_right \<longrightarrow> is_f64 (head_left - head_right) \<longrightarrow>
            is_f64 ((head_left - head_right) * W) \<longrightarrow>
            hydraulic_head_f64 X Y W head_left head_right ! i ! j = Some head_right) \<and>
         (head_left = of_int m / 2 \<longrightarrow> head_right = of_int n / 2 \<longrightarrow> W = of_int w \<longrightarrow>
            \<bar>m\<bar> \<le> 2 ^ 20 \<longrightarrow> \<bar>n\<bar> \<le> 2 ^ 20 \<longrightarrow> \<bar>w\<bar> \<le> 2 ^ 20 \<longrightarrow>
            (X ! i ! j = Some 0 \<longrightarrow>
               hydraulic_head_f64 X Y W head_left head_right ! i ! j = Some head_left) \<and>
            (X ! i ! j = Some W \<longrightarrow>
               hydraulic_head_f64 X Y W head_left head_right ! i ! j = Some head_right))"
proof -
  let ?h = "hydraulic_head_f64 X Y W head_left head_right ! i ! j"
  have W: "W \<noteq> 0" using assms(1) by simp
  have nth: "?h = fsub (Some head_left)
      (fdiv (fmul (fsub (Some head_left) (Some head_right)) (X ! i ! j)) W)"
    using assms(2,3) by (rule hydraulic_head_f64_nth)
  have left: "?h = Some head_left"
    if "X ! i ! j = Some 0" "is_f64 head_left" "fsub (Some head_left) (Some head_right) \<noteq> None"
    unfolding nth that(1) using W that(2,3) by (rule head_f64_at_zero)
  have right: "?h = Some head_right"
    if "X ! i ! j = Some W" "is_f64 head_right" "is_f64 (head_left - head_right)"
      "is_f64 ((head_left - head_right) * W)"
    unfolding nth that(1) using W that(2,3,4) by (rule head_f64_at_W)
  have sliders: "(X ! i ! j = Some 0 \<longrightarrow> ?h = Some head_left) \<and>
      (X ! i ! j = Some W \<longrightarrow> ?h = Some head_right)"
    if g: "head_left = of_int m / 2" "head_right = of_int n / 2" "W = of_int w"
      "\<bar>m\<bar> \<le> 2 ^ 20" "\<bar>n\<bar> \<le> 2 ^ 20" "\<bar>w\<bar> \<le> 2 ^ 20"
  proof -
    note e = grid_exact[OF g]
    have "fsub (Some head_left) (Some head_right) = Some (head_left - head_right)"
      using e(3) by (rule fsub_exact)
    then have fin: "fsub (Some head_left) (Some head_right) \<noteq> None" by simp
    show ?thesis using left[OF _ e(1) fin] right[OF _ e(2,3,4)] by blast
  qed
  show ?thesis using left right sliders by blast
qed

text \<open>The default slider values: heads 8 and 5 over \<open>W = 20\<close>.\<close>

theorem C2_boundary_heads_witness:
  "hydraulic_head_f64 [[Some 0, Some 10, Some 20]] [[Some 3, Some 3, Some 3]] 20 8 5 ! 0 ! 0 =
     Some 8 \<and>
   hydraulic_head_f64 [[Some 0, Some 10, Some 20]] [[Some 3, Some 3, Some 3]] 20 8 5 ! 0 ! 2 =
     Some 5 \<and>
   is_f64 8 \<and> is_f64 5 \<and> is_f64 (8 - 5) \<and> is_f64 ((8 - 5) * 20) \<and>
   fsub (Some 8) (Some 5) \<noteq> None"
proof -
  let ?X = "[[Some 0, Some 10, Some (20::real)]]"
  let ?Y = "[[Some 3, Some 3, Some (3::real)]]"
  have p: "(0::real) < 20" "(0::nat) < length ?X" "0 < length (?X ! 0)" "2 < length (?X ! 0)"
    by simp_all
  have f3: "is_f64 (8 - 5)" using is_f64_int[of 3] by simp
  have f60: "is_f64 ((8 - 5) * 20)" using is_f64_int[of 60] by simp
  have fin: "fsub (Some 8) (Some 5) \<noteq> None" using fsub_exact[OF f3] by simp
  have a0: "?X ! 0 ! 0 = Some 0" and a2: "?X ! 0 ! 2 = Some 20" by simp_all
  have g: "(8::real) = of_int 16 / 2" "(5::real) = of_int 10 / 2" "(20::real) = of_int 20"
    "\<bar>16::int\<bar> \<le> 2 ^ 20" "\<bar>10::int\<bar> \<le> 2 ^ 20" "\<bar>20::int\<bar> \<le> 2 ^ 20"
    by simp_all
  from C2_boundary_heads[OF p(1) p(2) p(3), where head_left=8 and head_right=5 and Y="?Y"]
    a0 f64_8 fin
  have h0: "hydraulic_head_f64 ?X ?Y 20 8 5 ! 0 ! 0 = Some 8" by blast
  from C2_boundary_heads[OF p(1) p(2) p(4), where head_left=8 and head_right=5 and Y="?Y"]
    a2 f64_5 f3 f60
  have h2: "hydraulic_head_f64 ?X ?Y 20 8 5 ! 0 ! 2 = Some 5" by blast
  from C2_boundary_heads[OF p(1) p(2) p(4), where head_left=8 and head_right=5 and Y="?Y"
      and m=16 and n=10 and w=20] g a2
  have "hydraulic_head_f64 ?X ?Y 20 8 5 ! 0 ! 2 = Some 5" by blast
  with h0 f64_8 f64_5 f3 f60 fin show ?thesis by blast
qed

subsection \<open>Independence of the head field\<close>

text \<open>
  Claim C3. Two calls that agree on \<open>H\<close>, \<open>W\<close>, \<open>head_left\<close> and \<open>head_right\<close> and differ
  arbitrarily in \<open>K\<close> and in the two excavation depths (and in the objects that exist
  before the call) put the same contour trace, so the same head field, into their figures;
  and within one call the head at a grid point does not depend on its row, that is on its
  y-coordinate.
\<close>

theorem C3_head_noninterference:
  "\<exists>c c'. data (returned_figure (update_figure s H W K head_left head_right
               excavation_depth_right excavation_depth_left)) = [c] \<and>
          data (returned_figure (update_figure s' H W K' head_left head_right
               excavation_depth_right' excavation_depth_left')) = [c'] \<and>
          c = c' \<and>
          (\<forall>i<100. \<forall>i'<100. \<forall>j<100. z c ! i ! j = z c ! i' ! j)"
proof -
  let ?X = "replicate 100 (linspace 0 W 100)"
  let ?Y = "map (\<lambda>v. replicate 100 v) (linspace 0 H 100)"
  let ?z = "hydraulic_head ?X ?Y W head_left head_right"
  let ?c = "\<lparr>z = ?z, x = linspace 0 W 100, y = linspace 0 H 100,
             contours_coloring = ''lines'', showscale = False,
             contour_line = \<lparr>color = ''blue'', width = 1\<rparr>\<rparr>"
  have zc: "z ?c = ?z" by simp
  have row: "?z ! i = map (\<lambda>x. map_option (\<lambda>q. head_left - q)
                  (true_divide ((head_left - head_right) * x) W)) (linspace 0 W 100)"
    if "i < 100" for i
    using that by (simp add: hydraulic_head_def)
  have "\<forall>i<100. \<forall>i'<100. \<forall>j<100. z ?c ! i ! j = z ?c ! i' ! j"
    unfolding zc by (simp add: row)
  moreover have "data (returned_figure (update_figure s H W K head_left head_right
               excavation_depth_right excavation_depth_left)) = [?c]"
    by (rule update_figure_data)
  moreover have "data (returned_figure (update_figure s' H W K' head_left head_right
               excavation_depth_right' excavation_depth_left')) = [?c]"
    by (rule update_figure_data)
  ultimately show ?thesis by blast
qed

text \<open>The default slider values against a call with another \<open>K\<close> and other depths.\<close>

theorem C3_head_noninterference_witness:
  "data (returned_figure (update_figure [] 10 20 (1 / 100000) 8 5 5 0)) =
   data (returned_figure (update_figure [] 10 20 (1 / 10000) 8 5 7 2)) \<and>
   (\<exists>c. data (returned_figure (update_figure [] 10 20 (1 / 100000) 8 5 5 0)) = [c] \<and>
        z c ! 0 ! 40 = z c ! 99 ! 40)"
proof -
  from C3_head_noninterference [of "[]" 10 20 "1 / 100000" 8 5 5 0 "[]" "1 / 10000" 7 2]
  obtain c c' where
    c: "data (returned_figure (update_figure [] 10 20 (1 / 100000) 8 5 5 0)) = [c]"
    and c': "data (returned_figure (update_figure [] 10 20 (1 / 10000) 8 5 7 2)) = [c']"
    and eq: "c = c'"
    and r: "\<forall>i<100. \<forall>i'<100. \<forall>j<100. z c ! i ! j = z c ! i' ! j"
    by blast
  have "z c ! 0 ! 40 = z c ! 99 ! 40" using r [rule_format, of 0 99 40] by simp
  with c c' eq show ?thesis by simp
qed

subsection \<open>Monotonicity of the head\<close>

text \<open>
  Claim C4 says that for every \<open>W > 0\<close> the head is monotone in \<open>x\<close> on \<open>[0, W]\<close>, in the
  direction given by the two heads, and that its value at each such \<open>x\<close> lies between
  \<open>head_left\<close> and \<open>head_right\<close>. The last part fails. For \<open>W = 30\<close>, \<open>head_left = 7.5\<close> and
  \<open>head_right\<close> the float64 nearest to 0.3, the head computed at \<open>x = W\<close> is
  \<open>337769972052787 / 2^50\<close>, which prints as 0.2999999999999998 and lies below
  \<open>head_right\<close>.
\<close>

theorem C4_counterexample:
  "is_f64 (15 / 2) \<and> is_f64 (5404319552844595 / 18014398509481984) \<and> is_f64 30 \<and>
   (5404319552844595 / 18014398509481984 :: real) \<le> 15 / 2 \<and> (0::real) \<le> 30 \<and>
   hydraulic_head_f64 [[Some 0, Some 30]] [[Some 0, Some 0]] 30 (15 / 2)
       (5404319552844595 / 18014398509481984) ! 0 ! 1 =
     Some (337769972052787 / 1125899906842624) \<and>
   (337769972052787 / 1125899906842624 :: real) < 5404319552844595 / 18014398509481984"
proof -
  have "hydraulic_head_f64 [[Some 0, Some 30]] [[Some 0, Some 0]] 30 (15 / 2)
       (5404319552844595 / 18014398509481984) ! 0 ! 1 =
      fsub (Some (15 / 2)) (fdiv (fmul (fsub (Some (15 / 2))
        (Some (5404319552844595 / 18014398509481984))) (Some 30)) 30)"
    using hydraulic_head_f64_nth[of 0 "[[Some 0, Some 30]]" 1] by simp
  then have h: "hydraulic_head_f64 [[Some 0, Some 30]] [[Some 0, Some 0]] 30 (15 / 2)
       (5404319552844595 / 18014398509481984) ! 0 ! 1 =
      Some (337769972052787 / 1125899906842624)"
    by (simp only: head_example_30)
  have lt: "(337769972052787 / 1125899906842624 :: real) < 5404319552844595 / 18014398509481984"
    by simp
  show ?thesis using f64_15_2 f64_near_3_10 f64_30 h lt by simp
qed

text \<open>
  Claim C4, amended. Let \<open>W > 0\<close> and \<open>head_left\<close> a float64, and take two entries of the
  head field, at x-coordinates \<open>a\<close> and \<open>b\<close>, whose values \<open>u\<close> and \<open>v\<close> are finite. If
  \<open>head_left \<ge> head_right\<close> the head is non-increasing in \<open>x\<close> (\<open>a \<le> b\<close> gives \<open>v \<le> u\<close>); if
  \<open>head_left \<le> head_right\<close> it is non-decreasing. At each \<open>x \<ge> 0\<close> the head does not pass
  \<open>head_left\<close>. At each \<open>x \<le> W\<close> it does not pass \<open>head_right\<close>, provided that \<open>head_right\<close>,
  \<open>head_left - head_right\<close> and \<open>(head_left - head_right) * W\<close> are float64 values, that
  is, that the head at \<open>x = W\<close> is computed without rounding. The proviso holds when the
  heads are multiples of 0.5 and \<open>W\<close> is an integer, of magnitudes up to \<open>2^19\<close> and \<open>2^20\<close>,
  as all values of the sliders are: then the head at each \<open>x\<close> in \<open>[0, W]\<close> lies between the
  two heads.
\<close>

theorem C4_head_monotone:
  assumes "0 < W" "is_f64 head_left"
    and "i < length X" "j < length (X ! i)" "i' < length X" "j' < length (X ! i')"
    and "X ! i ! j = Some a" "X ! i' ! j' = Some b"
    and "hydraulic_head_f64 X Y W head_left head_right ! i ! j = Some u"
    and "hydraulic_head_f64 X Y W head_left head_right ! i' ! j' = Some v"
  shows "(head_right \<le> head_left \<longrightarrow> a \<le> b \<longrightarrow> v \<le> u) \<and>
         (head_left \<le> head_right \<longrightarrow> a \<le> b \<longrightarrow> u \<le> v) \<and>
         (head_right \<le> head_left \<longrightarrow> 0 \<le> a \<longrightarrow> u \<le> head_left) \<and>
         (head_left \<le> head_right \<longrightarrow> 0 \<le> a \<longrightarrow> head_left \<le> u) \<and>
         (is_f64 head_right \<longrightarrow> is_f64 (head_left - head_right) \<longrightarrow>
            is_f64 ((head_left - head_right) * W) \<longrightarrow> a \<le> W \<longrightarrow>
            (head_right \<le> head_left \<longrightarrow> head_right \<le> u) \<and>
            (head_left \<le> head_right \<longrightarrow> u \<le> head_right)) \<and>
         (head_left = of_int m / 2 \<longrightarrow> head_right = of_int n / 2 \<longrightarrow> W = of_int w \<longrightarrow>
            \<bar>m\<bar> \<le> 2 ^ 20 \<longrightarrow> \<bar>n\<bar> \<le> 2 ^ 20 \<longrightarrow> \<bar>w\<bar> \<le> 2 ^ 20 \<longrightarrow> 0 \<le> a \<longrightarrow> a \<le> W \<longrightarrow>
            min head_left head_right \<le> u \<and> u \<le> max head_left head_right)"
proof -
  define d where "d = rnd (head_left - head_right)"
  have "fsub (Some head_left) (fdiv (fmul (fsub (Some head_left) (Some head_right)) (Some a)) W)
      = Some u"
    using assms(9) by (simp add: hydraulic_head_f64_nth[OF assms(3,4)] assms(7))
  from head_f64_SomeD[OF this]
  have u0: "u = rnd (head_left - rnd (rnd (rnd (head_left - head_right) * a) / W))" by simp
  have u: "u = rnd (head_left - rnd (rnd (d * a) / W))" unfolding d_def by (rule u0)
  have "fsub (Some head_left) (fdiv (fmul (fsub (Some head_left) (Some head_right)) (Some b)) W)
      = Some v"
    using assms(10) by (simp add: hydraulic_head_f64_nth[OF assms(5,6)] assms(8))
  from head_f64_SomeD[OF this]
  have v: "v = rnd (head_left - rnd (rnd (d * b) / W))" by (simp add: d_def)
  have hl: "rnd head_left = head_left" using assms(2) by (rule is_f64_rnd)
  have dpos: "0 \<le> d" if "head_right \<le> head_left"
    unfolding d_def using that by (intro rnd_nonneg) simp
  have dneg: "d \<le> 0" if "head_left \<le> head_right"
  proof -
    have "rnd (head_left - head_right) \<le> rnd 0" using that by (intro rnd_mono) simp
    then show ?thesis by (simp add: d_def rnd_0)
  qed
  have q_mono: "rnd (rnd c / W) \<le> rnd (rnd c' / W)" if "c \<le> c'" for c c'
  proof -
    have "rnd c \<le> rnd c'" using that by (rule rnd_mono)
    then have "rnd c / W \<le> rnd c' / W" using assms(1) by (simp add: divide_right_mono)
    then show ?thesis by (rule rnd_mono)
  qed
  have dec: "v \<le> u" if "head_right \<le> head_left" "a \<le> b"
  proof -
    have "d * a \<le> d * b" using dpos[OF that(1)] that(2) by (rule mult_left_mono[rotated])
    from q_mono[OF this]
    have "head_left - rnd (rnd (d * b) / W) \<le> head_left - rnd (rnd (d * a) / W)" by simp
    then show ?thesis unfolding u v by (rule rnd_mono)
  qed
  have inc: "u \<le> v" if "head_left \<le> head_right" "a \<le> b"
  proof -
    have "d * b \<le> d * a" using that(2) dneg[OF that(1)] by (rule mult_left_mono_neg)
    from q_mono[OF this]
    have "head_left - rnd (rnd (d * a) / W) \<le> head_left - rnd (rnd (d * b) / W)" by simp
    then show ?thesis unfolding u v by (rule rnd_mono)
  qed
  have q0: "rnd (rnd 0 / W) = 0" by (simp add: rnd_0)
  have up: "u \<le> head_left" if "head_right \<le> head_left" "0 \<le> a"
  proof -
    have "0 \<le> d * a" using dpos[OF that(1)] that(2) by simp
    from q_mono[OF this] have "0 \<le> rnd (rnd (d * a) / W)" by (simp add: q0)
    then have "head_left - rnd (rnd (d * a) / W) \<le> head_left" by simp
    from rnd_mono[OF this] show ?thesis by (simp add: u hl)
  qed
  have lo: "head_left \<le> u" if "head_left \<le> head_right" "0 \<le> a"
  proof -
    have "d * a \<le> 0" using dneg[OF that(1)] that(2) by (simp add: mult_nonpos_nonneg)
    from q_mono[OF this] have "rnd (rnd (d * a) / W) \<le> 0" by (simp add: q0)
    then have "head_left \<le> head_left - rnd (rnd (d * a) / W)" by simp
    from rnd_mono[OF this] show ?thesis by (simp add: u hl)
  qed
  have far: "(head_right \<le> head_left \<longrightarrow> head_right \<le> u) \<and>
      (head_left \<le> head_right \<longrightarrow> u \<le> head_right)"
    if e: "is_f64 head_right" "is_f64 (head_left - head_right)"
      "is_f64 ((head_left - head_right) * W)" and aW: "a \<le> W"
    using head_f64_lower[OF assms(1) e u0] aW by blast
  have sliders: "min head_left head_right \<le> u \<and> u \<le> max head_left head_right"
    if g: "head_left = of_int m / 2" "head_right = of_int n / 2" "W = of_int w"
      "\<bar>m\<bar> \<le> 2 ^ 20" "\<bar>n\<bar> \<le> 2 ^ 20" "\<bar>w\<bar> \<le> 2 ^ 20" and a: "0 \<le> a" "a \<le> W"
  proof -
    note e = grid_exact[OF g]
    note f = far[OF e(2,3,4) a(2)]
    show ?thesis
    proof (cases "head_right \<le> head_left")
      case True
      then have "head_right \<le> u" "u \<le> head_left" using f up[OF True a(1)] by blast+
      then show ?thesis using True by (simp add: min_def max_def)
    next
      case False
      then have le: "head_left \<le> head_right" by simp
      then have "u \<le> head_right" "head_left \<le> u" using f lo[OF le a(1)] by blast+
      then show ?thesis using le by (simp add: min_def max_def)
    qed
  qed
  show ?thesis using dec inc up lo far sliders by blast
qed

text \<open>
  Three inputs: the default heads 8 and 5 over \<open>W = 20\<close>, where the head falls from 8 at
  \<open>x = 0\<close> to 5 at \<open>x = W\<close>; the heads 5 and 8, where it rises; and the heads 7.5 and 0.3
  over \<open>W = 30\<close>, where the head at \<open>x = W\<close> has passed \<open>head_right\<close> but is still below the
  head at \<open>x = 0\<close>.
\<close>

theorem C4_head_monotone_witness:
  "(\<exists>u v. hydraulic_head_f64 [[Some 0, Some 20]] [[Some 0, Some 0]] 20 8 5 ! 0 ! 0 = Some u \<and>
          hydraulic_head_f64 [[Some 0, Some 20]] [[Some 0, Some 0]] 20 8 5 ! 0 ! 1 = Some v \<and>
          v \<le> u \<and> u \<le> 8 \<and> 5 \<le> v \<and> min 8 5 \<le> v \<and> v \<le> max 8 5) \<and>
   (\<exists>u v. hydraulic_head_f64 [[Some 0, Some 20]] [[Some 0, Some 0]] 20 5 8 ! 0 ! 0 = Some u \<and>
          hydraulic_head_f64 [[Some 0, Some 20]] [[Some 0, Some 0]] 20 5 8 ! 0 ! 1 = Some v \<and>
          u \<le> v \<and> 5 \<le> u \<and> v \<le> 8) \<and>
   (\<exists>u v. hydraulic_head_f64 [[Some 0, Some 30]] [[Some 0, Some 0]] 30 (15 / 2)
            (5404319552844595 / 18014398509481984) ! 0 ! 0 = Some u \<and>
          hydraulic_head_f64 [[Some 0, Some 30]] [[Some 0, Some 0]] 30 (15 / 2)
            (5404319552844595 / 18014398509481984) ! 0 ! 1 = Some v \<and>
          v \<le> u \<and> u \<le> 15 / 2)"
proof -
  let ?Y = "[[Some 0, Some (0::real)]]"
  let ?X = "[[Some 0, Some (20::real)]]"
  have n: "(0::nat) < length ?X" "0 < length (?X ! 0)" "1 < length (?X ! 0)" by simp_all
  have a: "?X ! 0 ! 0 = Some 0" "?X ! 0 ! 1 = Some 20" by simp_all
  have pos: "(0::real) < 20" and nz: "(20::real) \<noteq> 0" by simp_all
  have f3: "is_f64 (8 - 5)" using is_f64_int[of 3] by simp
  have f60: "is_f64 ((8 - 5) * 20)" using is_f64_int[of 60] by simp
  have fin: "fsub (Some 8) (Some 5) \<noteq> None" using fsub_exact[OF f3] by simp
  have h0: "hydraulic_head_f64 ?X ?Y 20 8 5 ! 0 ! 0 = Some 8"
    unfolding hydraulic_head_f64_nth[OF n(1) n(2)] a(1) using nz f64_8 fin
    by (rule head_f64_at_zero)
  have h1: "hydraulic_head_f64 ?X ?Y 20 8 5 ! 0 ! 1 = Some 5"
    unfolding hydraulic_head_f64_nth[OF n(1) n(3)] a(2) using nz f64_5 f3 f60
    by (rule head_f64_at_W)
  have g: "(8::real) = of_int 16 / 2" "(5::real) = of_int 10 / 2" "(20::real) = of_int 20"
    "\<bar>16::int\<bar> \<le> 2 ^ 20" "\<bar>10::int\<bar> \<le> 2 ^ 20" "\<bar>20::int\<bar> \<le> 2 ^ 20"
    by simp_all
  have le: "(5::real) \<le> 8" "(0::real) \<le> 20" "(20::real) \<le> 20" "(0::real) \<le> 0" by simp_all
  from C4_head_monotone[OF pos f64_8 n(1) n(2) n(1) n(3) a(1) a(2) h0 h1] le
  have m1: "(5::real) \<le> 8 \<and> (8::real) \<le> 8" by blast
  from C4_head_monotone[OF pos f64_8 n(1) n(3) n(1) n(3) a(2) a(2) h1 h1,
      where m=16 and n=10 and w=20] le f64_5 f3 f60 g
  have m2: "(5::real) \<le> 5 \<and> min 8 5 \<le> (5::real) \<and> (5::real) \<le> max 8 5" by blast
  from h0 h1 m1 m2
  have fall: "\<exists>u v. hydraulic_head_f64 ?X ?Y 20 8 5 ! 0 ! 0 = Some u \<and>
          hydraulic_head_f64 ?X ?Y 20 8 5 ! 0 ! 1 = Some v \<and>
          v \<le> u \<and> u \<le> 8 \<and> 5 \<le> v \<and> min 8 5 \<le> v \<and> v \<le> max 8 5"
    by blast
  have f3': "is_f64 (5 - 8)" using is_f64_int[of "- 3"] by simp
  have f60': "is_f64 ((5 - 8) * 20)" using is_f64_int[of "- 60"] by simp
  have fin': "fsub (Some 5) (Some 8) \<noteq> None" using fsub_exact[OF f3'] by simp
  have g0: "hydraulic_head_f64 ?X ?Y 20 5 8 ! 0 ! 0 = Some 5"
    unfolding hydraulic_head_f64_nth[OF n(1) n(2)] a(1) using nz f64_5 fin'
    by (rule head_f64_at_zero)
  have g1: "hydraulic_head_f64 ?X ?Y 20 5 8 ! 0 ! 1 = Some 8"
    unfolding hydraulic_head_f64_nth[OF n(1) n(3)] a(2) using nz f64_8 f3' f60'
    by (rule head_f64_at_W)
  from C4_head_monotone[OF pos f64_5 n(1) n(2) n(1) n(3) a(1) a(2) g0 g1] le
  have r1: "(5::real) \<le> 8 \<and> (5::real) \<le> 5" by blast
  from C4_head_monotone[OF pos f64_5 n(1) n(3) n(1) n(3) a(2) a(2) g1 g1] le f64_8 f3' f60'
  have r2: "(8::real) \<le> 8" by blast
  from g0 g1 r1 r2
  have rise: "\<exists>u v. hydraulic_head_f64 ?X ?Y 20 5 8 ! 0 ! 0 = Some u \<and>
          hydraulic_head_f64 ?X ?Y 20 5 8 ! 0 ! 1 = Some v \<and> u \<le> v \<and> 5 \<le> u \<and> v \<le> 8"
    by blast
  let ?X' = "[[Some 0, Some (30::real)]]"
  let ?hr = "5404319552844595 / 18014398509481984 :: real"
  have n': "(0::nat) < length ?X'" "0 < length (?X' ! 0)" "1 < length (?X' ! 0)" by simp_all
  have a': "?X' ! 0 ! 0 = Some 0" "?X' ! 0 ! 1 = Some 30" by simp_all
  have pos': "(0::real) < 30" and nz': "(30::real) \<noteq> 0" by simp_all
  have k0: "hydraulic_head_f64 ?X' ?Y 30 (15 / 2) ?hr ! 0 ! 0 = Some (15 / 2)"
    unfolding hydraulic_head_f64_nth[OF n'(1) n'(2)] a'(1)
    using nz' f64_15_2 head_example_30_finite by (rule head_f64_at_zero)
  have k1: "hydraulic_head_f64 ?X' ?Y 30 (15 / 2) ?hr ! 0 ! 1 =
      Some (337769972052787 / 1125899906842624)"
    unfolding hydraulic_head_f64_nth[OF n'(1) n'(3)] a'(2) by (rule head_example_30)
  have le': "?hr \<le> 15 / 2" "(0::real) \<le> 30" "(0::real) \<le> 0" by simp_all
  from C4_head_monotone[OF pos' f64_15_2 n'(1) n'(2) n'(1) n'(3) a'(1) a'(2) k0 k1] le'
  have "(337769972052787 / 1125899906842624 :: real) \<le> 15 / 2 \<and> (15 / 2 :: real) \<le> 15 / 2"
    by blast
  with k0 k1
  have edge: "\<exists>u v. hydraulic_head_f64 ?X' ?Y 30 (15 / 2) ?hr ! 0 ! 0 = Some u \<and>
          hydraulic_head_f64 ?X' ?Y 30 (15 / 2) ?hr ! 0 ! 1 = Some v \<and> v \<le> u \<and> u \<le> 15 / 2"
    by blast
  from fall rise edge show ?thesis by blast
qed

subsection \<open>The excavation boxes\<close>

text \<open>
  Claim C5 says that an excavation depth above \<open>H\<close> gives a rectangle with \<open>y1 > y0\<close>, and
  that nothing validates or clamps the parameters. The first part fails. For \<open>H = 5\<close> and
  \<open>excavation_depth_right = 10\<close>, both values of the sliders, the right box has \<open>y0 = 5\<close>
  and \<open>y1 = - 5\<close>, so \<open>y1 < y0\<close>.
\<close>

theorem C5_counterexample:
  "is_f64 5 \<and> is_f64 10 \<and> (5::real) < 10 \<and>
   y0 (shapes (fig_layout (returned_figure
         (update_figure_f64 [] 5 20 (1 / 65536) 8 5 10 0))) ! 0) = Some 5 \<and>
   y1 (shapes (fig_layout (returned_figure
         (update_figure_f64 [] 5 20 (1 / 65536) 8 5 10 0))) ! 0) = Some (- 5) \<and>
   \<not> (5::real) < - 5"
proof -
  have "is_f64 (5 - 10)" using is_f64_int[of "- 5"] by simp
  from fsub_exact[OF this] have d: "fsub (Some 5) (Some 10) = Some (- 5)" by simp
  show ?thesis using f64_5 f64_10 by (simp add: update_figure_f64_shapes d)
qed

text \<open>
  Claim C5, amended. For every input the first two shapes are the right and the left
  excavation rectangle, with \<open>y0 = H\<close> and \<open>y1\<close> the float64 difference \<open>H - depth\<close> of the
  parameters as they were passed: nothing rejects or clamps them. Where the depth exceeds
  \<open>H\<close> (both float64), a finite \<open>y1\<close> is negative, below the plotted range \<open>[0, H]\<close>; and for
  every depth that is not negative a finite \<open>y1\<close> is at most \<open>y0\<close>, so the rectangle is not
  inverted.
\<close>

theorem C5_excavation_boxes:
  "\<exists>right left rest.
     shapes (fig_layout (returned_figure (update_figure_f64 s0 H W K head_left head_right
        excavation_depth_right excavation_depth_left))) = right # left # rest \<and>
     shape_type right = ''rect'' \<and> shape_type left = ''rect'' \<and>
     y0 right = Some H \<and> y1 right = fsub (Some H) (Some excavation_depth_right) \<and>
     y0 left = Some H \<and> y1 left = fsub (Some H) (Some excavation_depth_left) \<and>
     (is_f64 H \<longrightarrow> is_f64 excavation_depth_right \<longrightarrow> H < excavation_depth_right \<longrightarrow>
        (\<forall>v. y1 right = Some v \<longrightarrow> v < 0)) \<and>
     (is_f64 H \<longrightarrow> is_f64 excavation_depth_left \<longrightarrow> H < excavation_depth_left \<longrightarrow>
        (\<forall>v. y1 left = Some v \<longrightarrow> v < 0)) \<and>
     (is_f64 H \<longrightarrow> 0 \<le> excavation_depth_right \<longrightarrow> (\<forall>v. y1 right = Some v \<longrightarrow> v \<le> H)) \<and>
     (is_f64 H \<longrightarrow> 0 \<le> excavation_depth_left \<longrightarrow> (\<forall>v. y1 left = Some v \<longrightarrow> v \<le> H))"
proof -
  have neg: "v < 0" if "is_f64 H" "is_f64 e" "H < e" "fsub (Some H) (Some e) = Some v" for e v
  proof -
    from fsub_SomeD[OF that(4)] have "v = rnd (H - e)" by simp
    then show ?thesis using rnd_sub_neg[OF that(1,2,3)] by simp
  qed
  have le: "v \<le> H" if "is_f64 H" "0 \<le> e" "fsub (Some H) (Some e) = Some v" for e v
    using that by (rule fsub_le_left)
  let ?S = "shapes (fig_layout (returned_figure (update_figure_f64 s0 H W K head_left head_right
        excavation_depth_right excavation_depth_left)))"
  obtain right left rest where s: "?S = right # left # rest"
    and t: "shape_type right = ''rect''" "shape_type left = ''rect''"
    and r: "y0 right = Some H" "y1 right = fsub (Some H) (Some excavation_depth_right)"
    and l: "y0 left = Some H" "y1 left = fsub (Some H) (Some excavation_depth_left)"
    by (simp add: update_figure_f64_shapes)
  have "is_f64 H \<longrightarrow> is_f64 excavation_depth_right \<longrightarrow> H < excavation_depth_right \<longrightarrow>
        (\<forall>v. y1 right = Some v \<longrightarrow> v < 0)"
    unfolding r(2) using neg by blast
  moreover have "is_f64 H \<longrightarrow> is_f64 excavation_depth_left \<longrightarrow> H < excavation_depth_left \<longrightarrow>
        (\<forall>v. y1 left = Some v \<longrightarrow> v < 0)"
    unfolding l(2) using neg by blast
  moreover have "is_f64 H \<longrightarrow> 0 \<le> excavation_depth_right \<longrightarrow>
        (\<forall>v. y1 right = Some v \<longrightarrow> v \<le> H)"
    unfolding r(2) using le by blast
  moreover have "is_f64 H \<longrightarrow> 0 \<le> excavation_depth_left \<longrightarrow>
        (\<forall>v. y1 left = Some v \<longrightarrow> v \<le> H)"
    unfolding l(2) using le by blast
  ultimately show ?thesis using s t r l by blast
qed

text \<open>\<open>H = 5\<close> with the depths 10 and 6, both above \<open>H\<close>.\<close>

theorem C5_excavation_boxes_witness:
  "\<exists>right left rest.
     shapes (fig_layout (returned_figure
        (update_figure_f64 [] 5 20 (1 / 65536) 8 5 10 6))) = right # left # rest \<and>
     y0 right = Some 5 \<and> y1 right = Some (- 5) \<and> (- 5 :: real) < 0 \<and> (- 5 :: real) \<le> 5 \<and>
     y0 left = Some 5 \<and> y1 left = Some (- 1) \<and> (- 1 :: real) < 0 \<and> (- 1 :: real) \<le> 5"
proof -
  have i6: "is_f64 6" using is_f64_int[of 6] by simp
  have "is_f64 (5 - 10)" using is_f64_int[of "- 5"] by simp
  from fsub_exact[OF this] have d: "fsub (Some 5) (Some 10) = Some (- 5)" by simp
  have "is_f64 (5 - 6)" using is_f64_int[of "- 1"] by simp
  from fsub_exact[OF this] have d': "fsub (Some 5) (Some 6) = Some (- 1)" by simp
  from C5_excavation_boxes [of "[]" 5 20 "1 / 65536" 8 5 10 6]
  obtain right left rest where
    s: "shapes (fig_layout (returned_figure
          (update_figure_f64 [] 5 20 (1 / 65536) 8 5 10 6))) = right # left # rest"
    and r: "y0 right = Some 5" "y1 right = fsub (Some 5) (Some 10)"
    and l: "y0 left = Some 5" "y1 left = fsub (Some 5) (Some 6)"
    and nr: "is_f64 5 \<longrightarrow> is_f64 10 \<longrightarrow> (5::real) < 10 \<longrightarrow> (\<forall>v. y1 right = Some v \<longrightarrow> v < 0)"
    and nl: "is_f64 5 \<longrightarrow> is_f64 6 \<longrightarrow> (5::real) < 6 \<longrightarrow> (\<forall>v. y1 left = Some v \<longrightarrow> v < 0)"
    and br: "is_f64 5 \<longrightarrow> (0::real) \<le> 10 \<longrightarrow> (\<forall>v. y1 right = Some v \<longrightarrow> v \<le> 5)"
    and bl: "is_f64 5 \<longrightarrow> (0::real) \<le> 6 \<longrightarrow> (\<forall>v. y1 left = Some v \<longrightarrow> v \<le> 5)"
    by blast
  have r1: "y1 right = Some (- 5)" using r(2) d by simp
  have l1: "y1 left = Some (- 1)" using l(2) d' by simp
  have "(- 5 :: real) < 0" using nr f64_5 f64_10 r1 by simp
  moreover have "(- 1 :: real) < 0" using nl f64_5 i6 l1 by simp
  moreover have "(- 5 :: real) \<le> 5" using br f64_5 r1 by simp
  moreover have "(- 1 :: real) \<le> 5" using bl f64_5 l1 by simp
  ultimately show ?thesis using s r(1) l(1) r1 l1 by blast
qed

subsection \<open>Shapes, layout and flow lines\<close>

text \<open>
  Claim C6. For every input the shapes of the figure are three rectangles (the two
  excavation boxes and the sheet pile), then five vertical lines, then the two horizontal
  water-level lines, and no other shape; there are two annotations, one at the level of
  each water line and each with a text; and the figure holds one contour trace.
\<close>

theorem C6_shape_counts:
  "\<exists>rects flow water.
     shapes (fig_layout (returned_figure (update_figure s0 H W K head_left head_right
        excavation_depth_right excavation_depth_left))) = rects @ flow @ water \<and>
     length rects = 3 \<and> list_all (\<lambda>sh. shape_type sh = ''rect'') rects \<and>
     length flow = 5 \<and>
     list_all (\<lambda>sh. shape_type sh = ''line'' \<and> x0 sh = x1 sh) flow \<and>
     length water = 2 \<and>
     list_all (\<lambda>sh. shape_type sh = ''line'' \<and> y0 sh = y1 sh) water \<and>
     map ann_y (annotations (fig_layout (returned_figure (update_figure s0 H W K head_left
        head_right excavation_depth_right excavation_depth_left)))) = map y0 water \<and>
     list_all (\<lambda>a. ann_text a \<noteq> [])
       (annotations (fig_layout (returned_figure (update_figure s0 H W K head_left
          head_right excavation_depth_right excavation_depth_left)))) \<and>
     length (data (returned_figure (update_figure s0 H W K head_left head_right
        excavation_depth_right excavation_depth_left))) = 1 \<and>
     length (filter (\<lambda>sh. shape_type sh = ''rect'')
       (shapes (fig_layout (returned_figure (update_figure s0 H W K head_left head_right
          excavation_depth_right excavation_depth_left))))) = 3 \<and>
     length (filter (\<lambda>sh. shape_type sh = ''line'')
       (shapes (fig_layout (returned_figure (update_figure s0 H W K head_left head_right
          excavation_depth_right excavation_depth_left))))) = 7"
proof -
  let ?f = "returned_figure (update_figure s0 H W K head_left head_right
        excavation_depth_right excavation_depth_left)"
  let ?rects = "[\<lparr>shape_type = ''rect'', x0 = W / 2, x1 = W, y0 = H,
        y1 = H - excavation_depth_right,
        line = \<lparr>color = ''Black'', width = 2\<rparr>,
        fillcolor = Some ''white'', layer = Some ''below''\<rparr>,
     \<lparr>shape_type = ''rect'', x0 = 0, x1 = W / 2, y0 = H,
        y1 = H - excavation_depth_left,
        line = \<lparr>color = ''Black'', width = 2\<rparr>,
        fillcolor = Some ''white'', layer = Some ''below''\<rparr>,
     \<lparr>shape_type = ''rect'', x0 = (W / 2) - 1 / 2, x1 = W / 2, y0 = H,
        y1 = H - (excavation_depth_right + ((1 / 10) * (H - excavation_depth_right))),
        line = \<lparr>color = ''gray'', width = 1\<rparr>,
        fillcolor = Some ''gray'', layer = None\<rparr>]"
  let ?flow = "map (\<lambda>x_coord. \<lparr>shape_type = ''line'', x0 = x_coord, x1 = x_coord,
        y0 = 0, y1 = H, line = \<lparr>color = ''orange'', width = 3 / 2\<rparr>,
        fillcolor = None, layer = None\<rparr>) [0, W / 4, W / 2, 3 * W / 4, W]"
  let ?water = "[\<lparr>shape_type = ''line'', x0 = 0, x1 = W / 2, y0 = head_left,
         y1 = head_left, line = \<lparr>color = ''blue'', width = 2\<rparr>,
         fillcolor = None, layer = Some ''above''\<rparr>,
       \<lparr>shape_type = ''line'', x0 = W / 2, x1 = W, y0 = head_right,
         y1 = head_right, line = \<lparr>color = ''blue'', width = 2\<rparr>,
         fillcolor = None, layer = Some ''above''\<rparr>]"
  have "shapes (fig_layout ?f) = ?rects @ ?flow @ ?water"
    by (rule update_figure_shapes)
  moreover have "length ?rects = 3 \<and> list_all (\<lambda>sh. shape_type sh = ''rect'') ?rects"
    by simp
  moreover have "length ?flow = 5 \<and>
      list_all (\<lambda>sh. shape_type sh = ''line'' \<and> x0 sh = x1 sh) ?flow"
    by simp
  moreover have "length ?water = 2 \<and>
      list_all (\<lambda>sh. shape_type sh = ''line'' \<and> y0 sh = y1 sh) ?water"
    by simp
  moreover have "map ann_y (annotations (fig_layout ?f)) = map y0 ?water"
    by (simp add: update_figure_annotations)
  moreover have "list_all (\<lambda>a. ann_text a \<noteq> []) (annotations (fig_layout ?f))"
    by (simp add: update_figure_annotations)
  moreover have "length (data ?f) = 1"
    by (simp add: update_figure_data)
  moreover have "length (filter (\<lambda>sh. shape_type sh = ''rect'') (shapes (fig_layout ?f))) = 3"
    by (simp add: update_figure_shapes)
  moreover have "length (filter (\<lambda>sh. shape_type sh = ''line'') (shapes (fig_layout ?f))) = 7"
    by (simp add: update_figure_shapes)
  ultimately show ?thesis by blast
qed

text \<open>The default slider values: ten shapes, two annotations, one trace.\<close>

theorem C6_shape_counts_witness:
  "length (shapes (fig_layout (returned_figure
      (update_figure [] 10 20 (1 / 100000) 8 5 5 0)))) = 10 \<and>
   length (annotations (fig_layout (returned_figure
      (update_figure [] 10 20 (1 / 100000) 8 5 5 0)))) = 2 \<and>
   length (data (returned_figure (update_figure [] 10 20 (1 / 100000) 8 5 5 0))) = 1"
proof -
  let ?f = "returned_figure (update_figure [] 10 20 (1 / 100000) 8 5 5 0)"
  from C6_shape_counts [of "[]" 10 20 "1 / 100000" 8 5 5 0]
  obtain rects flow water where
    s: "shapes (fig_layout ?f) = rects @ flow @ water"
    and n: "length rects = 3" "length flow = 5" "length water = 2"
    and a: "map ann_y (annotations (fig_layout ?f)) = map y0 water"
    and d: "length (data ?f) = 1"
    by blast
  have "length (shapes (fig_layout ?f)) = 10" using s n by simp
  moreover have "length (annotations (fig_layout ?f)) = 2"
    using arg_cong [OF a, of length] n by simp
  ultimately show ?thesis using d by simp
qed

text \<open>
  Claim C7. For every input the title is "Seepage Flow Around a Deep Excavation with Flow
  Net", the x-axis is titled "Width (m)" with range \<open>[0, W]\<close>, the y-axis is titled
  "Depth (m)" with range \<open>[0, H]\<close>, and the canvas is 900 wide and 600 high.
\<close>

theorem C7_layout:
  "title (fig_layout (returned_figure (update_figure s0 H W K head_left head_right
      excavation_depth_right excavation_depth_left))) =
     Some ''Seepage Flow Around a Deep Excavation with Flow Net'' \<and>
   xaxis_title (fig_layout (returned_figure (update_figure s0 H W K head_left head_right
      excavation_depth_right excavation_depth_left))) = Some ''Width (m)'' \<and>
   xaxis_range (fig_layout (returned_figure (update_figure s0 H W K head_left head_right
      excavation_depth_right excavation_depth_left))) = Some [0, W] \<and>
   yaxis_title (fig_layout (returned_figure (update_figure s0 H W K head_left head_right
      excavation_depth_right excavation_depth_left))) = Some ''Depth (m)'' \<and>
   yaxis_range (fig_layout (returned_figure (update_figure s0 H W K head_left head_right
      excavation_depth_right excavation_depth_left))) = Some [0, H] \<and>
   layout_width (fig_layout (returned_figure (update_figure s0 H W K head_left head_right
      excavation_depth_right excavation_depth_left))) = Some 900 \<and>
   layout_height (fig_layout (returned_figure (update_figure s0 H W K head_left head_right
      excavation_depth_right excavation_depth_left))) = Some 600"
  by (simp add: update_figure_eq returned_figure_def)


subsection \<open>The sheet pile\<close>

text \<open>
  Claim C10 says that the sheet-pile rectangle spans \<open>x\<close> from \<open>W / 2 - 0.5\<close> to \<open>W / 2\<close> and
  \<open>y\<close> from \<open>H\<close> down to \<open>H - (depth + 0.1 * (H - depth))\<close> for the right excavation depth,
  that its bottom is strictly below the right excavation floor whenever that depth is
  below \<open>H\<close>, and that it does not depend on the left excavation depth. The strictness
  fails. For \<open>H = 10\<close> and the depth \<open>5629499534213119 / 2^49\<close>, the float64 just below 10
  (it prints as 9.999999999999998), the tenth of \<open>H - depth\<close> is absorbed when it is added
  to the depth, and pile bottom and excavation floor are both \<open>1 / 2^49\<close>.
\<close>

theorem C10_counterexample:
  "is_f64 10 \<and> is_f64 (5629499534213119 / 562949953421312) \<and>
   (5629499534213119 / 562949953421312 :: real) < 10 \<and>
   y1 (shapes (fig_layout (returned_figure (update_figure_f64 [] 10 20 (1 / 65536) 8 5
         (5629499534213119 / 562949953421312) 0))) ! 2) = Some (1 / 562949953421312) \<and>
   y1 (shapes (fig_layout (returned_figure (update_figure_f64 [] 10 20 (1 / 65536) 8 5
         (5629499534213119 / 562949953421312) 0))) ! 0) = Some (1 / 562949953421312) \<and>
   \<not> (1 / 562949953421312 :: real) < 1 / 562949953421312"
proof -
  have ie: "is_f64 (5629499534213119 / 562949953421312)"
    by (rule is_f64_I[where m=5629499534213119 and k="- 49"]) (simp_all add: power_int_minus)
  let ?S = "shapes (fig_layout (returned_figure (update_figure_f64 [] 10 20 (1 / 65536) 8 5
         (5629499534213119 / 562949953421312) 0)))"
  have "y1 (?S ! 2) = fsub (Some 10) (fadd (Some (5629499534213119 / 562949953421312))
     (fmul (Some point_one) (fsub (Some 10) (Some (5629499534213119 / 562949953421312)))))"
    by (simp add: update_figure_f64_shapes)
  then have p: "y1 (?S ! 2) = Some (1 / 562949953421312)" by (simp only: pile_eval)
  have "y1 (?S ! 0) = fsub (Some 10) (Some (5629499534213119 / 562949953421312))"
    by (simp add: update_figure_f64_shapes)
  then have f: "y1 (?S ! 0) = Some (1 / 562949953421312)" by (simp only: floor_eval)
  show ?thesis using f64_10 ie p f by simp
qed

text \<open>
  Claim C10, amended. For every input the third shape is the sheet-pile rectangle, with
  \<open>x0\<close> the float64 value of \<open>W / 2 - 0.5\<close>, \<open>x1\<close> that of \<open>W / 2\<close>, \<open>y0 = H\<close> and \<open>y1\<close> the
  float64 value of \<open>H - (depth + 0.1 * (H - depth))\<close> for the right excavation depth, each
  operation rounded in the order of the source and \<open>0.1\<close> the float64 nearest to one tenth.
  Whenever that depth is a float64 below \<open>H\<close>, the pile bottom is at or below the right
  excavation floor \<open>H - depth\<close> (both finite). It is strictly below when \<open>H\<close> and the depth
  are multiples of 0.5 of magnitude up to \<open>2^19\<close>, as all values of the sliders are; both
  are finite then. The rectangle is the same in a call with any other left excavation
  depth, \<open>K\<close>, heads or store.
\<close>

theorem C10_sheet_pile:
  "\<exists>right left pile rest.
     shapes (fig_layout (returned_figure (update_figure_f64 s0 H W K head_left head_right
        excavation_depth_right excavation_depth_left))) = right # left # pile # rest \<and>
     shape_type pile = ''rect'' \<and>
     x0 pile = fsub (fdiv (Some W) 2) (Some (1 / 2)) \<and> x1 pile = fdiv (Some W) 2 \<and>
     y0 pile = Some H \<and>
     y1 pile = fsub (Some H) (fadd (Some excavation_depth_right)
                 (fmul (Some point_one) (fsub (Some H) (Some excavation_depth_right)))) \<and>
     y1 right = fsub (Some H) (Some excavation_depth_right) \<and>
     (is_f64 excavation_depth_right \<longrightarrow> excavation_depth_right < H \<longrightarrow>
        (\<forall>u v. y1 pile = Some u \<longrightarrow> y1 right = Some v \<longrightarrow> u \<le> v)) \<and>
     (H = of_int m / 2 \<longrightarrow> excavation_depth_right = of_int n / 2 \<longrightarrow>
        \<bar>m\<bar> \<le> 2 ^ 20 \<longrightarrow> \<bar>n\<bar> \<le> 2 ^ 20 \<longrightarrow> excavation_depth_right < H \<longrightarrow>
        (\<exists>u v. y1 pile = Some u \<and> y1 right = Some v \<and> u < v)) \<and>
     pile = shapes (fig_layout (returned_figure (update_figure_f64 s0' H W K' head_left'
        head_right' excavation_depth_right excavation_depth_left'))) ! 2"
proof -
  let ?e = excavation_depth_right
  have le: "u \<le> v"
    if e: "is_f64 ?e" "?e < H"
      and u: "fsub (Some H) (fadd (Some ?e) (fmul (Some point_one) (fsub (Some H) (Some ?e)))) = Some u"
      and v: "fsub (Some H) (Some ?e) = Some v" for u v
  proof -
    from fsub_SomeD[OF v] have v': "v = rnd (H - ?e)" by simp
    from fsub_SomeD[OF u] obtain w where
      w: "fadd (Some ?e) (fmul (Some point_one) (fsub (Some H) (Some ?e))) = Some w"
      and u': "u = rnd (H - w)" by auto
    from fadd_SomeD[OF w] obtain g where
      g: "fmul (Some point_one) (fsub (Some H) (Some ?e)) = Some g" and w': "w = rnd (?e + g)"
      by auto
    from fmul_SomeD[OF g] obtain t where
      t: "fsub (Some H) (Some ?e) = Some t" and g': "g = rnd (point_one * t)" by auto
    from fsub_SomeD[OF t] have t': "t = rnd (H - ?e)" by simp
    have "0 \<le> t" unfolding t' using e(2) by (intro rnd_nonneg) simp
    then have "0 \<le> point_one * t" by (simp add: point_one_def)
    then have "0 \<le> g" unfolding g' by (rule rnd_nonneg)
    then have "?e \<le> ?e + g" by simp
    from rnd_mono[OF this] have "?e \<le> w" unfolding w' by (simp add: is_f64_rnd[OF e(1)])
    then have "H - w \<le> H - ?e" by simp
    from rnd_mono[OF this] show ?thesis unfolding u' v' .
  qed
  let ?S = "shapes (fig_layout (returned_figure (update_figure_f64 s0 H W K head_left
        head_right excavation_depth_right excavation_depth_left)))"
  let ?S' = "shapes (fig_layout (returned_figure (update_figure_f64 s0' H W K' head_left'
        head_right' excavation_depth_right excavation_depth_left')))"
  obtain right left pile rest where s: "?S = right # left # pile # rest"
    and r: "y1 right = fsub (Some H) (Some ?e)"
    and p: "shape_type pile = ''rect''" "x0 pile = fsub (fdiv (Some W) 2) (Some (1 / 2))"
      "x1 pile = fdiv (Some W) 2" "y0 pile = Some H"
      "y1 pile = fsub (Some H) (fadd (Some ?e) (fmul (Some point_one) (fsub (Some H) (Some ?e))))"
    and i: "pile = ?S' ! 2"
    by (simp add: update_figure_f64_shapes)
  have weak: "is_f64 ?e \<longrightarrow> ?e < H \<longrightarrow>
      (\<forall>u v. y1 pile = Some u \<longrightarrow> y1 right = Some v \<longrightarrow> u \<le> v)"
    unfolding r p(5) using le by blast
  have strict: "H = of_int m / 2 \<longrightarrow> ?e = of_int n / 2 \<longrightarrow>
        \<bar>m\<bar> \<le> 2 ^ 20 \<longrightarrow> \<bar>n\<bar> \<le> 2 ^ 20 \<longrightarrow> ?e < H \<longrightarrow>
        (\<exists>u v. y1 pile = Some u \<and> y1 right = Some v \<and> u < v)"
    unfolding r p(5) using pile_grid[of H m ?e n] by blast
  from s r p i weak strict show ?thesis by blast
qed

text \<open>
  \<open>H = 10\<close>, \<open>W = 20\<close> and the right depth 7: the pile spans \<open>x\<close> from 9.5 to 10, its bottom
  is the float64 \<open>3039929748475085 / 2^50\<close> (it prints as 2.7) and the excavation floor
  is 3. A call with the left depth 3 draws the same pile.
\<close>

theorem C10_sheet_pile_witness:
  "\<exists>right left pile rest.
     shapes (fig_layout (returned_figure
        (update_figure_f64 [] 10 20 (1 / 65536) 8 5 7 0))) = right # left # pile # rest \<and>
     x0 pile = Some (19 / 2) \<and> x1 pile = Some 10 \<and> y0 pile = Some 10 \<and>
     y1 pile = Some (3039929748475085 / 1125899906842624) \<and> y1 right = Some 3 \<and>
     (3039929748475085 / 1125899906842624 :: real) \<le> 3 \<and>
     (\<exists>u v. y1 pile = Some u \<and> y1 right = Some v \<and> u < v) \<and>
     pile = shapes (fig_layout (returned_figure
        (update_figure_f64 [] 10 20 (1 / 65536) 8 5 7 3))) ! 2"
proof -
  have i7: "is_f64 7" using is_f64_int[of 7] by simp
  have "is_f64 (10 - 7)" using is_f64_int[of 3] by simp
  from fsub_exact[OF this] have t: "fsub (Some 10) (Some 7) = Some 3" by simp
  have "is_f64 (20 / 2)" using is_f64_int[of 10] by simp
  from fdiv_exact[OF _ this] have h: "fdiv (Some 20) 2 = Some 10" by simp
  have "is_f64 (10 - 1 / 2)"
    by (rule is_f64_I[where m=19 and k="- 1"]) (simp_all add: power_int_minus)
  from fsub_exact[OF this] have l: "fsub (Some 10) (Some (1 / 2)) = Some (19 / 2)" by simp
  have g: "(10::real) = of_int 20 / 2" "(7::real) = of_int 14 / 2"
    "\<bar>20::int\<bar> \<le> 2 ^ 20" "\<bar>14::int\<bar> \<le> 2 ^ 20" "(7::real) < 10"
    by simp_all
  from C10_sheet_pile [where ?s0.0="[]" and H=10 and W=20 and K="1 / 65536" and head_left=8
      and head_right=5 and excavation_depth_right=7 and excavation_depth_left=0
      and s0'="[]" and K'="1 / 65536" and head_left'=8 and head_right'=5
      and excavation_depth_left'=3 and m=20 and n=14]
  obtain right left pile rest where
    s: "shapes (fig_layout (returned_figure
          (update_figure_f64 [] 10 20 (1 / 65536) 8 5 7 0))) = right # left # pile # rest"
    and p: "x0 pile = fsub (fdiv (Some 20) 2) (Some (1 / 2))" "x1 pile = fdiv (Some 20) 2"
       "y0 pile = Some 10"
       "y1 pile = fsub (Some 10) (fadd (Some 7) (fmul (Some point_one) (fsub (Some 10) (Some 7))))"
    and r0: "y1 right = fsub (Some 10) (Some 7)"
    and b: "is_f64 7 \<longrightarrow> (7::real) < 10 \<longrightarrow>
              (\<forall>u v. y1 pile = Some u \<longrightarrow> y1 right = Some v \<longrightarrow> u \<le> v)"
    and c: "(10::real) = of_int 20 / 2 \<longrightarrow> (7::real) = of_int 14 / 2 \<longrightarrow>
              \<bar>20::int\<bar> \<le> 2 ^ 20 \<longrightarrow> \<bar>14::int\<bar> \<le> 2 ^ 20 \<longrightarrow> (7::real) < 10 \<longrightarrow>
              (\<exists>u v. y1 pile = Some u \<and> y1 right = Some v \<and> u < v)"
    and e: "pile = shapes (fig_layout (returned_figure
          (update_figure_f64 [] 10 20 (1 / 65536) 8 5 7 3))) ! 2"
    by blast
  have r: "y1 right = Some 3" using r0 by (simp only: t)
  have p1: "x0 pile = Some (19 / 2)" using p(1) by (simp only: h l)
  have p2: "x1 pile = Some 10" using p(2) by (simp only: h)
  have p4: "y1 pile = Some (3039929748475085 / 1125899906842624)"
    using p(4) by (simp only: pile_eval_7)
  have w: "(3039929748475085 / 1125899906842624 :: real) \<le> 3" using b i7 p4 r by simp
  have st: "\<exists>u v. y1 pile = Some u \<and> y1 right = Some v \<and> u < v" using c g by blast
  from s p1 p2 p(3) p4 r w st e show ?thesis by blast
qed

end
